theory Spec2Isabelle
  imports Complex_Main "HOL-Library.AList" "HOL-Library.Multiset" "HOL-Library.Sublist"
begin

section \<open>Workflow pool (workflow\_pool.go)\<close>

text \<open>
  A workflow is known to the pool only through its \<open>name\<close> field; the pool stores
  pointers, modelled by an address next to the name so that two workflows with the same
  name stay distinguishable.
\<close>

record workflow =
  name :: string
  addr :: nat

datatype pool_error = ErrWorkflowNotFound

record WorkflowPool =
  ws :: "string \<rightharpoonup> workflow"

definition NewWorkflowPool :: WorkflowPool where
  "NewWorkflowPool = \<lparr>ws = Map.empty\<rparr>"

definition AddWorkflow :: "workflow \<Rightarrow> WorkflowPool \<Rightarrow> WorkflowPool" where
  "AddWorkflow w wp = wp\<lparr>ws := (ws wp)(name w \<mapsto> w)\<rparr>"

definition Workflow :: "WorkflowPool \<Rightarrow> string \<Rightarrow> pool_error + workflow" where
  "Workflow wp n = (case ws wp n of None \<Rightarrow> Inl ErrWorkflowNotFound | Some w \<Rightarrow> Inr w)"

section \<open>Frame pool and frame dispatcher (libav/frame.go)\<close>

text \<open>
  Native frames are identified by their address. \<open>AvFrameAlloc\<close> returns an address
  never handed out before, so the pool numbers its allocations. Record fields carry the
  Go field's name behind a prefix for the struct (\<open>fp_p\<close> is \<open>framePool.p\<close>).
\<close>

type_synonym frame = nat

record framePool =
  fp_p :: "frame list"
  fp_allocs :: nat  \<comment> \<open>frames allocated so far; each one has a free hook on the closer\<close>

definition newFramePool :: framePool where
  "newFramePool = \<lparr>fp_p = [], fp_allocs = 0\<rparr>"

definition get :: "framePool \<Rightarrow> frame \<times> framePool" where
  "get fp = (case fp_p fp of
       [] \<Rightarrow> (fp_allocs fp, fp\<lparr>fp_allocs := Suc (fp_allocs fp)\<rparr>)
     | f # r \<Rightarrow> (f, fp\<lparr>fp_p := r\<rparr>))"

definition put :: "frame \<Rightarrow> framePool \<Rightarrow> framePool" where
  "put f fp = fp\<lparr>fp_p := fp_p fp @ [f]\<rparr>"

record Rational =
  num :: int
  den :: int

record Descriptor =
  TimeBase :: Rational

datatype handler = Handler (h_name: string) (h_node: nat)

datatype event = AvError int string

text \<open>
  A goroutine spawned by \<open>dispatch\<close>: the handler it calls, the pooled frame \<open>hF\<close> it
  owns, the source frame that \<open>hF\<close> references, the descriptor, and the number of the
  \<open>dispatch\<close> call that spawned it (calls are counted from 0).
\<close>

record task =
  t_h :: handler
  t_frame :: frame
  t_src :: frame
  t_descr :: Descriptor
  t_seq :: nat

text \<open>
  Where the producer stands inside \<open>dispatch\<close>: not in a call yet; blocked in
  \<open>d.wait()\<close> with its snapshot; inside the loop over the snapshot, with the handlers
  already visited (each with the return code \<open>AvFrameRef\<close> gave) and those still to
  visit; returned from the call, with what the loop visited.
\<close>

datatype pc =
    Idle
  | Waiting nat frame Descriptor "handler list"
  | Looping nat frame Descriptor "(handler \<times> int) list" "handler list"
  | Returned nat frame Descriptor "(handler \<times> int) list"

text \<open>
  The dispatcher with the goroutines it has spawned. \<open>d_hs\<close>, \<open>d_p\<close> and \<open>d_wg\<close> are
  the struct's fields; \<open>d_events\<close> is what was emitted through \<open>d.eh\<close>; \<open>d_tasks\<close> are
  the goroutines still to run, \<open>d_handled\<close> the \<open>HandleFrame\<close> calls that have
  returned (oldest first), \<open>d_calls\<close> the calls of \<open>dispatch\<close> made so far (oldest
  first), each with its frame and the snapshot it took, \<open>d_pc\<close> the producer's position.
\<close>

record frameDispatcher =
  d_hs :: "(string \<times> handler) list"
  d_p :: framePool
  d_wg :: int
  d_events :: "event list"
  d_tasks :: "task list"
  d_handled :: "task list"
  d_calls :: "(frame \<times> handler list) list"
  d_pc :: pc

definition newFrameDispatcher :: frameDispatcher where
  "newFrameDispatcher =
     \<lparr>d_hs = [], d_p = newFramePool, d_wg = 0, d_events = [], d_tasks = [],
      d_handled = [], d_calls = [], d_pc = Idle\<rparr>"

definition addHandler :: "handler \<Rightarrow> frameDispatcher \<Rightarrow> frameDispatcher" where
  "addHandler h d = d\<lparr>d_hs := AList.update (h_name h) h (d_hs d)\<rparr>"

definition delHandler :: "handler \<Rightarrow> frameDispatcher \<Rightarrow> frameDispatcher" where
  "delHandler h d = d\<lparr>d_hs := AList.delete (h_name h) (d_hs d)\<rparr>"

text \<open>
  One iteration of the loop over the snapshot (frame.go lines 91 to 110) for handler
  \<open>h\<close>, where \<open>ret\<close> is what \<open>AvFrameRef\<close> returns: a frame is taken from the pool; on
  failure the error is emitted, the wait group is decremented and the loop continues;
  otherwise the goroutine is spawned.
\<close>

definition fan_one ::
  "nat \<Rightarrow> frame \<Rightarrow> Descriptor \<Rightarrow> handler \<Rightarrow> int \<Rightarrow> frameDispatcher \<Rightarrow> frameDispatcher" where
  "fan_one n f descr h ret d =
     (let (hF, pl) = get (d_p d); d1 = d\<lparr>d_p := pl\<rparr> in
      if ret < 0
      then d1\<lparr>d_events := d_events d1 @ [AvError ret ''avutil.AvFrameRef failed''],
              d_wg := d_wg d1 - 1\<rparr>
      else d1\<lparr>d_tasks := d_tasks d1 @
              [\<lparr>t_h = h, t_frame = hF, t_src = f, t_descr = descr, t_seq = n\<rparr>]\<rparr>)"

text \<open>
  A spawned goroutine runs: \<open>HandleFrame\<close> is called and returns, then the deferred
  \<open>d.p.put(hF)\<close> and \<open>d.wg.Done()\<close> run.
\<close>

definition run_task :: "nat \<Rightarrow> frameDispatcher \<Rightarrow> frameDispatcher" where
  "run_task i d =
     (let t = d_tasks d ! i in
      d\<lparr>d_handled := d_handled d @ [t],
        d_p := put (t_frame t) (d_p d),
        d_wg := d_wg d - 1,
        d_tasks := take i (d_tasks d) @ drop (Suc i) (d_tasks d)\<rparr>)"

text \<open>
  The steps of the system. \<open>Call f descr snap\<close>: the producer calls \<open>dispatch\<close> and
  copies the handlers; Go iterates a map in an unspecified order, so the snapshot is any
  arrangement of the table's values; an empty snapshot returns at once. \<open>Wait\<close>:
  \<open>d.wait()\<close> returns, which it does only at a zero counter, and \<open>d.wg.Add\<close> follows.
  \<open>Fan ret\<close>: one loop iteration, \<open>AvFrameRef\<close> returning \<open>ret\<close>; after the last one
  \<open>dispatch\<close> returns. \<open>Run i\<close>: the \<open>i\<close>-th outstanding goroutine runs. \<open>AddH\<close> and
  \<open>DelH\<close>: another goroutine connects or disconnects a handler. A step that cannot
  happen in the state gives \<open>None\<close>.
\<close>

datatype action =
    Call frame Descriptor "handler list"
  | Wait
  | Fan int
  | Run nat
  | AddH handler
  | DelH handler

definition after_fan ::
  "nat \<Rightarrow> frame \<Rightarrow> Descriptor \<Rightarrow> (handler \<times> int) list \<Rightarrow> handler list \<Rightarrow> pc" where
  "after_fan n f descr done rest =
     (if rest = [] then Returned n f descr done else Looping n f descr done rest)"

definition idle :: "pc \<Rightarrow> bool" where
  "idle c = (case c of Idle \<Rightarrow> True | Returned _ _ _ _ \<Rightarrow> True | _ \<Rightarrow> False)"

fun step :: "action \<Rightarrow> frameDispatcher \<Rightarrow> frameDispatcher option" where
  "step (Call f descr snap) d =
     (if idle (d_pc d) \<and> mset snap = mset (map snd (d_hs d))
      then Some (d\<lparr>d_calls := d_calls d @ [(f, snap)],
                   d_pc := (if snap = [] then Returned (length (d_calls d)) f descr []
                            else Waiting (length (d_calls d)) f descr snap)\<rparr>)
      else None)"
| "step Wait d =
     (case d_pc d of
        Waiting n f descr snap \<Rightarrow>
          if d_wg d = 0
          then Some (d\<lparr>d_wg := d_wg d + int (length snap), d_pc := Looping n f descr [] snap\<rparr>)
          else None
      | _ \<Rightarrow> None)"
| "step (Fan ret) d =
     (case d_pc d of
        Looping n f descr done (h # rest) \<Rightarrow>
          Some ((fan_one n f descr h ret d)
                 \<lparr>d_pc := after_fan n f descr (done @ [(h, ret)]) rest\<rparr>)
      | _ \<Rightarrow> None)"
| "step (Run i) d = (if i < length (d_tasks d) then Some (run_task i d) else None)"
| "step (AddH h) d = Some (addHandler h d)"
| "step (DelH h) d = Some (delHandler h d)"

fun run :: "action list \<Rightarrow> frameDispatcher \<Rightarrow> frameDispatcher option" where
  "run [] d = Some d"
| "run (a # as) d = (case step a d of None \<Rightarrow> None | Some d' \<Rightarrow> run as d')"

text \<open>
  The frames \<open>dispatch\<close> was called with, in call order, and the frames handler \<open>h\<close>
  has received, in the order it received them.
\<close>

definition dispatched :: "frameDispatcher \<Rightarrow> frame list" where
  "dispatched d = map fst (d_calls d)"

definition received :: "handler \<Rightarrow> frameDispatcher \<Rightarrow> frame list" where
  "received h d = map t_src (filter (\<lambda>t. t_h t = h) (d_handled d))"

section \<open>Invariants of the frame dispatcher\<close>

text \<open>Projections of the producer's position.\<close>

fun pc_seq :: "pc \<Rightarrow> nat option" where
  "pc_seq Idle = None"
| "pc_seq (Waiting n f descr snap) = Some n"
| "pc_seq (Looping n f descr done rest) = Some n"
| "pc_seq (Returned n f descr done) = Some n"

fun pc_fanning :: "pc \<Rightarrow> nat option" where
  "pc_fanning (Looping n f descr done rest) = Some n"
| "pc_fanning _ = None"

fun pc_done :: "pc \<Rightarrow> (handler \<times> int) list" where
  "pc_done (Looping n f descr done rest) = done"
| "pc_done (Returned n f descr done) = done"
| "pc_done _ = []"

fun pc_rest :: "pc \<Rightarrow> handler list" where
  "pc_rest (Waiting n f descr snap) = snap"
| "pc_rest (Looping n f descr done rest) = rest"
| "pc_rest _ = []"

fun pc_added :: "pc \<Rightarrow> nat" where
  "pc_added (Looping n f descr done rest) = length rest"
| "pc_added _ = 0"

fun pc_arg :: "pc \<Rightarrow> (frame \<times> Descriptor) option" where
  "pc_arg Idle = None"
| "pc_arg (Waiting n f descr snap) = Some (f, descr)"
| "pc_arg (Looping n f descr done rest) = Some (f, descr)"
| "pc_arg (Returned n f descr done) = Some (f, descr)"

definition hs_ok :: "frameDispatcher \<Rightarrow> bool" where
  "hs_ok d = (distinct (map fst (d_hs d)) \<and> (\<forall>(k, h) \<in> set (d_hs d). h_name h = k))"

definition wg_ok :: "frameDispatcher \<Rightarrow> bool" where
  "wg_ok d = (d_wg d = int (length (d_tasks d)) + int (pc_added (d_pc d)))"

definition frames_ok :: "frameDispatcher \<Rightarrow> bool" where
  "frames_ok d = (distinct (fp_p (d_p d) @ map t_frame (d_tasks d))
     \<and> (\<forall>x \<in> set (fp_p (d_p d) @ map t_frame (d_tasks d)). x < fp_allocs (d_p d)))"

definition snap_ok :: "frameDispatcher \<Rightarrow> bool" where
  "snap_ok d = distinct (map fst (pc_done (d_pc d)) @ pc_rest (d_pc d))"

definition seq_ok :: "frameDispatcher \<Rightarrow> bool" where
  "seq_ok d = ((\<forall>t \<in> set (d_handled d @ d_tasks d). t_seq t < length (d_calls d))
     \<and> (\<forall>n. pc_seq (d_pc d) = Some n \<longrightarrow> Suc n = length (d_calls d)))"

definition barrier_ok :: "frameDispatcher \<Rightarrow> bool" where
  "barrier_ok d = (\<forall>n. pc_fanning (d_pc d) = Some n \<longrightarrow> (\<forall>t \<in> set (d_tasks d). t_seq t = n))"

definition invoked :: "nat \<Rightarrow> handler \<Rightarrow> frameDispatcher \<Rightarrow> task list" where
  "invoked n h d = filter (\<lambda>t. t_seq t = n \<and> t_h t = h) (d_handled d @ d_tasks d)"

definition account_ok :: "frameDispatcher \<Rightarrow> bool" where
  "account_ok d = (\<forall>n. pc_seq (d_pc d) = Some n \<longrightarrow>
     (\<forall>h. length (invoked n h d) = length (filter (\<lambda>(h', r). h' = h \<and> 0 \<le> r) (pc_done (d_pc d))))
     \<and> (\<forall>t \<in> set (d_handled d @ d_tasks d). t_seq t = n \<longrightarrow> pc_arg (d_pc d) = Some (t_src t, t_descr t)))"

definition order_ok :: "frameDispatcher \<Rightarrow> bool" where
  "order_ok d =
     ((\<forall>h. sorted_wrt (<) (map t_seq (filter (\<lambda>t. t_h t = h) (d_handled d))))
      \<and> (\<forall>e \<in> set (d_handled d). \<forall>t \<in> set (d_tasks d). t_h e = t_h t \<longrightarrow> t_seq e < t_seq t)
      \<and> distinct (map t_h (d_tasks d)))"

definition hist_ok :: "frameDispatcher \<Rightarrow> bool" where
  "hist_ok d =
     ((\<forall>n. pc_seq (d_pc d) = Some n \<longrightarrow>
         map_option fst (pc_arg (d_pc d)) = Some (fst (d_calls d ! n))
         \<and> map fst (pc_done (d_pc d)) @ pc_rest (d_pc d) = snd (d_calls d ! n))
      \<and> (\<forall>t \<in> set (d_handled d @ d_tasks d). t_src t = fst (d_calls d ! t_seq t)))"

text \<open>The errors the loop emits for the copies that failed, in loop order.\<close>

definition copy_errors :: "(handler \<times> int) list \<Rightarrow> event list" where
  "copy_errors done =
     map (\<lambda>(h, ret). AvError ret ''avutil.AvFrameRef failed'') (filter (\<lambda>(h, ret). ret < 0) done)"

definition events_ok :: "frameDispatcher \<Rightarrow> bool" where
  "events_ok d = suffix (copy_errors (pc_done (d_pc d))) (d_events d)"

definition returned_ok :: "frameDispatcher \<Rightarrow> bool" where
  "returned_ok d = (\<forall>n f descr done. d_pc d = Returned n f descr done \<and> done \<noteq> [] \<longrightarrow>
     (\<forall>t \<in> set (d_tasks d). t_seq t = n))"

text \<open>
  Since call \<open>n\<close> was made with the events \<open>E\<close> emitted before it, and as long as the
  producer is in that call or has returned from it, the events are \<open>E\<close> followed by the
  errors of the copies that failed so far.
\<close>

definition events_since :: "nat \<Rightarrow> event list \<Rightarrow> frameDispatcher \<Rightarrow> bool" where
  "events_since n E d =
     (Suc n \<le> length (d_calls d)
      \<and> (pc_seq (d_pc d) = Some n \<longrightarrow> d_events d = E @ copy_errors (pc_done (d_pc d))))"

definition dispatcher_inv :: "frameDispatcher \<Rightarrow> bool" where
  "dispatcher_inv d = (hs_ok d \<and> wg_ok d \<and> frames_ok d \<and> snap_ok d \<and> seq_ok d \<and> barrier_ok d
     \<and> account_ok d \<and> order_ok d \<and> hist_ok d \<and> events_ok d \<and> returned_ok d)"

section \<open>Example runs of the frame dispatcher\<close>

definition h1 :: handler where "h1 = Handler ''h1'' 1"
definition h2 :: handler where "h2 = Handler ''h2'' 2"

definition descr25 :: Descriptor where
  "descr25 = \<lparr>TimeBase = \<lparr>num = 1, den = 25\<rparr>\<rparr>"

text \<open>
  Two handlers, one call with frame 7: the copy for \<open>h2\<close> succeeds and its goroutine
  runs while the loop is still going, the copy for \<open>h1\<close> fails with \<open>ENOMEM\<close> (-12).
\<close>

definition trace_two :: "action list" where
  "trace_two = [AddH h1, AddH h2, Call 7 descr25 [h2, h1], Wait, Fan 0, Run 0, Fan (- 12)]"

definition state_two :: frameDispatcher where
  "state_two =
     \<lparr>d_hs = [(''h1'', h1), (''h2'', h2)],
      d_p = \<lparr>fp_p = [], fp_allocs = 1\<rparr>, d_wg = 0,
      d_events = [AvError (- 12) ''avutil.AvFrameRef failed''], d_tasks = [],
      d_handled = [\<lparr>t_h = h2, t_frame = 0, t_src = 7, t_descr = descr25, t_seq = 0\<rparr>],
      d_calls = [(7, [h2, h1])],
      d_pc = Returned 0 7 descr25 [(h2, 0), (h1, - 12)]\<rparr>"

text \<open>
  One handler, two calls with frames 7 and 8: the copy of frame 7 fails, the copy of
  frame 8 succeeds and its goroutine runs.
\<close>

definition trace_skip :: "action list" where
  "trace_skip = [AddH h1, Call 7 descr25 [h1], Wait, Fan (- 12),
                 Call 8 descr25 [h1], Wait, Fan 0, Run 0]"

definition state_skip :: frameDispatcher where
  "state_skip =
     \<lparr>d_hs = [(''h1'', h1)],
      d_p = \<lparr>fp_p = [1], fp_allocs = 2\<rparr>, d_wg = 0,
      d_events = [AvError (- 12) ''avutil.AvFrameRef failed''], d_tasks = [],
      d_handled = [\<lparr>t_h = h1, t_frame = 1, t_src = 8, t_descr = descr25, t_seq = 1\<rparr>],
      d_calls = [(7, [h1]), (8, [h1])],
      d_pc = Returned 1 8 descr25 [(h1, 0)]\<rparr>"

text \<open>No handler registered, one call with frame 7.\<close>

definition trace_none :: "action list" where
  "trace_none = [Call 7 descr25 []]"

definition state_none :: frameDispatcher where
  "state_none = newFrameDispatcher\<lparr>d_calls := [(7, [])], d_pc := Returned 0 7 descr25 []\<rparr>"

text \<open>
  Two handlers, one call with frame 7, stopped where the producer waits, and stopped
  inside the loop after the first copy.
\<close>

definition trace_wait :: "action list" where
  "trace_wait = [AddH h1, AddH h2, Call 7 descr25 [h2, h1]]"

definition state_wait :: frameDispatcher where
  "state_wait =
     newFrameDispatcher\<lparr>d_hs := [(''h1'', h1), (''h2'', h2)], d_calls := [(7, [h2, h1])],
       d_pc := Waiting 0 7 descr25 [h2, h1]\<rparr>"

definition trace_loop :: "action list" where
  "trace_loop = [AddH h1, AddH h2, Call 7 descr25 [h2, h1], Wait, Fan 0]"

definition state_loop :: frameDispatcher where
  "state_loop =
     \<lparr>d_hs = [(''h1'', h1), (''h2'', h2)],
      d_p = \<lparr>fp_p = [], fp_allocs = 1\<rparr>, d_wg = 2, d_events = [],
      d_tasks = [\<lparr>t_h = h2, t_frame = 0, t_src = 7, t_descr = descr25, t_seq = 0\<rparr>],
      d_handled = [], d_calls = [(7, [h2, h1])],
      d_pc = Looping 0 7 descr25 [(h2, 0)] [h1]\<rparr>"

section \<open>Forwarder (HandleFrame)\<close>

text \<open>
  The closure \<open>HandleFrame\<close> adds to the forwarder's chan captures the pooled frame
  \<open>fm\<close> and the payload's descriptor. \<open>fw_dispatched\<close> lists the calls of
  \<open>f.d.dispatch\<close> the consumer has made.
\<close>

record chan_item =
  ci_fm :: frame
  ci_descr :: Descriptor

record Forwarder =
  fw_p :: framePool
  fw_c :: "chan_item list"
  fw_events :: "event list"
  fw_statIncomingRate :: nat
  fw_statProcessedRate :: nat
  fw_dispatched :: "(frame \<times> Descriptor) list"

definition NewForwarder :: Forwarder where
  "NewForwarder =
     \<lparr>fw_p = newFramePool, fw_c = [], fw_events = [], fw_statIncomingRate = 0,
      fw_statProcessedRate = 0, fw_dispatched = []\<rparr>"

text \<open>
  \<open>HandleFrame\<close> for a payload with descriptor \<open>descr\<close>, where \<open>ret\<close> is what
  \<open>AvFrameRef\<close> returns: on failure the error is emitted and the function returns.
\<close>

definition HandleFrame :: "Descriptor \<Rightarrow> int \<Rightarrow> Forwarder \<Rightarrow> Forwarder" where
  "HandleFrame descr ret fw =
     (let fw1 = fw\<lparr>fw_statIncomingRate := fw_statIncomingRate fw + 1\<rparr>;
          (fm, pl) = get (fw_p fw1);
          fw2 = fw1\<lparr>fw_p := pl\<rparr>
      in if ret < 0
         then fw2\<lparr>fw_events := fw_events fw2 @ [AvError ret ''avutil.AvFrameRef failed'']\<rparr>
         else fw2\<lparr>fw_c := fw_c fw2 @ [\<lparr>ci_fm = fm, ci_descr = descr\<rparr>]\<rparr>)"

text \<open>
  The chan's consumer runs the oldest closure: the processed rate is incremented, the
  frame is restamped in place (its address does not change) and dispatched, and the
  deferred \<open>f.p.put(fm)\<close> returns it to the pool. With nothing queued nothing happens.
\<close>

definition forwarder_process :: "Forwarder \<Rightarrow> Forwarder" where
  "forwarder_process fw =
     (case fw_c fw of
        [] \<Rightarrow> fw
      | it # r \<Rightarrow>
          fw\<lparr>fw_c := r,
             fw_statProcessedRate := fw_statProcessedRate fw + 1,
             fw_dispatched := fw_dispatched fw @ [(ci_fm it, ci_descr it)],
             fw_p := put (ci_fm it) (fw_p fw)\<rparr>)"

section \<open>Packets and time stamps\<close>

text \<open>
  A native packet as far as the repository reads and writes it: time stamps, duration
  and stream index are \<open>int64\<close>/\<open>int\<close> values; \<open>pkt_skip_samples\<close> is the
  \<open>AV_PKT_DATA_SKIP_SAMPLES\<close> side data, when present the number of samples to skip at
  the start and at the end.
\<close>

record Packet =
  pkt_pts :: int
  pkt_dts :: int
  pkt_duration :: int
  pkt_stream_index :: int
  pkt_skip_samples :: "(nat \<times> nat) option"

definition INT64_MAX :: int where "INT64_MAX = 2 ^ 63 - 1"
definition INT64_MIN :: int where "INT64_MIN = - (2 ^ 63)"
definition AV_NOPTS_VALUE :: int where "AV_NOPTS_VALUE = INT64_MIN"

text \<open>
  \<open>av_rescale_q\<close> and \<open>av_packet_rescale_ts\<close> belong to the native library, not to the
  repository. They are modelled as the library documents them: \<open>a * bq / cq\<close> rounded
  to the nearest integer, halves away from zero, and \<open>INT64_MIN\<close> for an invalid
  quotient or a result outside \<open>int64\<close>; a packet's \<open>pts\<close> and \<open>dts\<close> are rescaled
  unless unset, its duration when positive.
\<close>

definition av_rescale_rnd_near_inf :: "int \<Rightarrow> int \<Rightarrow> int \<Rightarrow> int" where
  "av_rescale_rnd_near_inf a b c =
     (if c \<le> 0 \<or> b < 0 then INT64_MIN
      else let r = (\<bar>max a (- INT64_MAX)\<bar> * b + c div 2) div c
           in if INT64_MAX < r then INT64_MIN else if a < 0 then - r else r)"

definition AvRescaleQ :: "int \<Rightarrow> Rational \<Rightarrow> Rational \<Rightarrow> int" where
  "AvRescaleQ a bq cq = av_rescale_rnd_near_inf a (num bq * den cq) (num cq * den bq)"

definition AvPacketRescaleTs :: "Packet \<Rightarrow> Rational \<Rightarrow> Rational \<Rightarrow> Packet" where
  "AvPacketRescaleTs pkt src dst =
     pkt\<lparr>pkt_pts := (if pkt_pts pkt \<noteq> AV_NOPTS_VALUE then AvRescaleQ (pkt_pts pkt) src dst
                      else pkt_pts pkt),
         pkt_dts := (if pkt_dts pkt \<noteq> AV_NOPTS_VALUE then AvRescaleQ (pkt_dts pkt) src dst
                      else pkt_dts pkt),
         pkt_duration := (if 0 < pkt_duration pkt then AvRescaleQ (pkt_duration pkt) src dst
                           else pkt_duration pkt)\<rparr>"

section \<open>Muxer\<close>

text \<open>
  An output stream of the format context; the muxer's handlers hold pointers to such
  streams, so the streams live in a store indexed by address.
\<close>

record Stream =
  st_Index :: int
  st_TimeBase :: Rational

type_synonym streams = "nat \<Rightarrow> Stream"

record PktHandlerPayload =
  pp_Descriptor :: Descriptor
  pp_Pkt :: Packet

text \<open>
  The queue carries closures of type \<open>pktHandlerPayloadRetriever\<close>; a closure reads the
  target stream through its pointer when it is called, so it is a function of the
  stream store at that moment.
\<close>

type_synonym pktHandlerPayloadRetriever = "streams \<Rightarrow> PktHandlerPayload"

datatype close_hook = FreeContext | CloseAvIO | WriteTrailer

text \<open>
  The muxer. \<open>m_o\<close> is the \<open>sync.Once\<close> (true once it has fired), \<open>m_c\<close> the hooks
  added to the closer (oldest first), \<open>m_q\<close> the queue, \<open>m_restamper\<close> the optional
  restamper, \<open>m_streams\<close> the streams of the format context. The effects on the output
  are counted: \<open>m_header_calls\<close> calls of \<open>AvformatWriteHeader\<close>, \<open>m_write_calls\<close>
  calls of \<open>AvInterleavedWriteFrame\<close> with \<open>m_written\<close> the packets of the successful
  ones, \<open>m_trailer_calls\<close> calls of \<open>AvWriteTrailer\<close>.
\<close>

record Muxer =
  m_o :: bool
  m_c :: "close_hook list"
  m_q :: "pktHandlerPayloadRetriever list"
  m_restamper :: "(Packet \<Rightarrow> Packet) option"
  m_streams :: streams
  m_events :: "event list"
  m_statIncomingRate :: nat
  m_header_calls :: nat
  m_write_calls :: nat
  m_written :: "Packet list"
  m_trailer_calls :: nat

text \<open>
  \<open>NewMuxer\<close> for an output that is a file: the closer holds the hooks that free the
  format context and close the file.
\<close>

definition NewMuxer :: "(Packet \<Rightarrow> Packet) option \<Rightarrow> streams \<Rightarrow> Muxer" where
  "NewMuxer restamper ss =
     \<lparr>m_o = False, m_c = [FreeContext, CloseAvIO], m_q = [], m_restamper = restamper,
      m_streams = ss, m_events = [], m_statIncomingRate = 0, m_header_calls = 0,
      m_write_calls = 0, m_written = [], m_trailer_calls = 0\<rparr>"

record MuxerPktHandler =
  mh_o :: nat

definition NewPktHandler :: "nat \<Rightarrow> MuxerPktHandler" where
  "NewPktHandler o_ptr = \<lparr>mh_o = o_ptr\<rparr>"

definition pktHandlerPayloadRetriever ::
  "MuxerPktHandler \<Rightarrow> PktHandlerPayload \<Rightarrow> pktHandlerPayloadRetriever" where
  "pktHandlerPayloadRetriever h p =
     (\<lambda>ss. p\<lparr>pp_Pkt :=
        (AvPacketRescaleTs (pp_Pkt p) (TimeBase (pp_Descriptor p)) (st_TimeBase (ss (mh_o h))))
          \<lparr>pkt_stream_index := st_Index (ss (mh_o h))\<rparr>\<rparr>)"

definition HandlePkt :: "MuxerPktHandler \<Rightarrow> PktHandlerPayload \<Rightarrow> Muxer \<Rightarrow> Muxer" where
  "HandlePkt h p m = m\<lparr>m_q := m_q m @ [pktHandlerPayloadRetriever h p]\<rparr>"

text \<open>
  The function the queue calls for one dequeued item (lines 310 to 333 of the muxer).
  \<open>wr\<close> gives the return code of the native write as a function of the number of
  writes made before and of the packet. A failed write emits the error and returns
  from this function only.
\<close>

definition handle_item ::
  "(nat \<Rightarrow> Packet \<Rightarrow> int) \<Rightarrow> pktHandlerPayloadRetriever \<Rightarrow> Muxer \<Rightarrow> Muxer" where
  "handle_item wr dp m =
     (let p = dp (m_streams m);
          m1 = m\<lparr>m_statIncomingRate := m_statIncomingRate m + 1\<rparr>;
          pkt = (case m_restamper m1 of None \<Rightarrow> pp_Pkt p | Some restamp \<Rightarrow> restamp (pp_Pkt p));
          ret = wr (m_write_calls m1) pkt;
          m2 = m1\<lparr>m_write_calls := m_write_calls m1 + 1\<rparr>
      in if ret < 0
         then m2\<lparr>m_events := m_events m2 @ [AvError ret ''m.ctxFormat.AvInterleavedWriteFrame failed'']\<rparr>
         else m2\<lparr>m_written := m_written m2 @ [pkt]\<rparr>)"

text \<open>
  \<open>m.q.Start\<close>: the queue hands every item it holds to the function, oldest first,
  until it is empty; the queue belongs to another library and is modelled as the
  specification describes it (every submitted item is processed).
\<close>

fun q_Start :: "(nat \<Rightarrow> Packet \<Rightarrow> int) \<Rightarrow> pktHandlerPayloadRetriever list \<Rightarrow> Muxer \<Rightarrow> Muxer" where
  "q_Start wr [] m = m"
| "q_Start wr (dp # q) m = q_Start wr q (handle_item wr dp m)"

text \<open>
  The body \<open>Start\<close> hands to the base node, run once. \<open>hdr\<close> is what
  \<open>AvformatWriteHeader\<close> returns if it is called, together with the stream store it
  leaves behind (writing the header may change the streams' time bases). The result
  says whether the body returned at the header check (\<open>False\<close>) or ran the queue
  (\<open>True\<close>).
\<close>

definition Start_body ::
  "int \<times> (streams \<Rightarrow> streams) \<Rightarrow> (nat \<Rightarrow> Packet \<Rightarrow> int) \<Rightarrow> Muxer \<Rightarrow> bool \<times> Muxer" where
  "Start_body hdr wr m =
     (let (ret, m1) =
            (if m_o m then (0, m)
             else (fst hdr, m\<lparr>m_o := True, m_header_calls := m_header_calls m + 1,
                               m_streams := snd hdr (m_streams m)\<rparr>))
      in if ret < 0
         then (False, m1\<lparr>m_events := m_events m1 @
                 [AvError ret ''m.ctxFormat.AvformatWriteHeader on %s failed'']\<rparr>)
         else let m2 = m1\<lparr>m_c := m_c m1 @ [WriteTrailer]\<rparr>
              in (True, (q_Start wr (m_q m2) m2)\<lparr>m_q := []\<rparr>))"

text \<open>
  Teardown: the closer runs its hooks, the newest first; a \<open>WriteTrailer\<close> hook calls
  \<open>AvWriteTrailer\<close>.
\<close>

fun run_hook :: "close_hook \<Rightarrow> Muxer \<Rightarrow> Muxer" where
  "run_hook WriteTrailer m = m\<lparr>m_trailer_calls := m_trailer_calls m + 1\<rparr>"
| "run_hook _ m = m"

definition Close :: "Muxer \<Rightarrow> Muxer" where
  "Close m = (fold run_hook (rev (m_c m)) m)\<lparr>m_c := []\<rparr>"

text \<open>
  Modelled from the spec: \<open>BaseNode.Start\<close> is not among the sources; a start runs the
  body it is given inside a task and the node stops when the body has returned or its
  context is cancelled. The muxer is started and stopped once per element of \<open>runs\<close>,
  each run with its own header result and write results.
\<close>

fun Start_many ::
  "((int \<times> (streams \<Rightarrow> streams)) \<times> (nat \<Rightarrow> Packet \<Rightarrow> int)) list \<Rightarrow> Muxer \<Rightarrow> Muxer" where
  "Start_many [] m = m"
| "Start_many ((hdr, wr) # runs) m = Start_many runs (snd (Start_body hdr wr m))"

text \<open>The packet \<open>handle_item\<close> hands to the native write for a queue item.\<close>

definition item_pkt :: "Muxer \<Rightarrow> pktHandlerPayloadRetriever \<Rightarrow> Packet" where
  "item_pkt m dp =
     (case m_restamper m of None \<Rightarrow> pp_Pkt (dp (m_streams m))
      | Some restamp \<Rightarrow> restamp (pp_Pkt (dp (m_streams m))))"

text \<open>A muxer that has been created and not started yet.\<close>

definition never_started :: "Muxer \<Rightarrow> bool" where
  "never_started m = (\<not> m_o m \<and> m_header_calls m = 0 \<and> m_trailer_calls m = 0 \<and> WriteTrailer \<notin> set (m_c m))"

section \<open>Example muxers\<close>

definition tb_ms :: Rational where "tb_ms = \<lparr>num = 1, den = 1000\<rparr>"
definition tb_90k :: Rational where "tb_90k = \<lparr>num = 1, den = 90000\<rparr>"

text \<open>A stream store whose streams all have index 3 and time base 1/90000.\<close>

definition ss_90k :: streams where
  "ss_90k = (\<lambda>_. \<lparr>st_Index = 3, st_TimeBase = tb_90k\<rparr>)"

text \<open>Native writes that all succeed, and writes of which the second one fails.\<close>

definition wr_ok :: "nat \<Rightarrow> Packet \<Rightarrow> int" where
  "wr_ok = (\<lambda>_ _. 0)"

definition wr_second_fails :: "nat \<Rightarrow> Packet \<Rightarrow> int" where
  "wr_second_fails = (\<lambda>k _. if k = 1 then - 32 else 0)"

text \<open>A header write that succeeds and one that fails with \<open>EIO\<close>, both leaving the streams alone.\<close>

definition hdr_ok :: "int \<times> (streams \<Rightarrow> streams)" where
  "hdr_ok = (0, id)"

definition hdr_eio :: "int \<times> (streams \<Rightarrow> streams)" where
  "hdr_eio = (- 5, id)"

text \<open>A payload in milliseconds whose time stamps are both \<open>t\<close>.\<close>

definition payload_ms :: "int \<Rightarrow> PktHandlerPayload" where
  "payload_ms t =
     \<lparr>pp_Descriptor = \<lparr>TimeBase = tb_ms\<rparr>,
      pp_Pkt = \<lparr>pkt_pts = t, pkt_dts = t, pkt_duration = 40, pkt_stream_index = 0,
                pkt_skip_samples = None\<rparr>\<rparr>"

text \<open>A new muxer with the payloads 1000, 2000 and 3000 sent to stream 0.\<close>

definition muxer_three :: Muxer where
  "muxer_three =
     HandlePkt (NewPktHandler 0) (payload_ms 3000)
       (HandlePkt (NewPktHandler 0) (payload_ms 2000)
          (HandlePkt (NewPktHandler 0) (payload_ms 1000) (NewMuxer None ss_90k)))"

section \<open>Demuxer\<close>

datatype AVMediaType =
    AVMEDIA_TYPE_UNKNOWN | AVMEDIA_TYPE_VIDEO | AVMEDIA_TYPE_AUDIO | AVMEDIA_TYPE_DATA
  | AVMEDIA_TYPE_SUBTITLE | AVMEDIA_TYPE_ATTACHMENT

text \<open>The fields of a stream's \<open>Context\<close> that the demuxer reads.\<close>

record Context =
  CodecType :: AVMediaType
  SampleRate :: int
  ctx_TimeBase :: Rational

text \<open>
  Constants of the native library: the error code for end of input
  (\<open>-MKTAG('E','O','F',' ')\<close>) and the backward seek flag.
\<close>

definition AVERROR_EOF :: int where "AVERROR_EOF = - 541478725"
definition AVSEEK_FLAG_BACKWARD :: int where "AVSEEK_FLAG_BACKWARD = 1"

definition nanosecondRational :: Rational where
  "nanosecondRational = \<lparr>num = 1, den = 1000000000\<rparr>"

subsection \<open>The float64 arithmetic of emulateRatePktDuration\<close>

text \<open>
  Go's \<open>float64\<close> is IEEE 754 binary64 and its operations round the exact result to
  the nearest representable number, ties to the even significand. For a nonzero real
  in the normal range that number is the real divided by the unit in the last place of
  its binade (53 significant bits), rounded to an integer with ties to even, times
  that unit. The values the demuxer computes stay in the normal range, so overflow and
  subnormal numbers are not modelled. \<open>int64(f)\<close> truncates towards zero.
\<close>

definition round_even :: "real \<Rightarrow> int" where
  "round_even y =
     (let f = \<lfloor>y\<rfloor> in
      if y - of_int f < 1 / 2 then f
      else if 1 / 2 < y - of_int f then f + 1
      else if even f then f else f + 1)"

definition float64_ulp :: "real \<Rightarrow> real" where
  "float64_ulp x = 2 powr (of_int (\<lfloor>log 2 \<bar>x\<bar>\<rfloor> - 52))"

definition float64_round :: "real \<Rightarrow> real" where
  "float64_round x =
     (if x = 0 then 0 else of_int (round_even (x / float64_ulp x)) * float64_ulp x)"

definition float64_of_int :: "int \<Rightarrow> real" where
  "float64_of_int i = float64_round (of_int i)"

definition float64_div :: "real \<Rightarrow> real \<Rightarrow> real" where
  "float64_div a b = float64_round (a / b)"

definition float64_mul :: "real \<Rightarrow> real \<Rightarrow> real" where
  "float64_mul a b = float64_round (a * b)"

definition int64_of_float64 :: "real \<Rightarrow> int" where
  "int64_of_float64 f = (if 0 \<le> f then \<lfloor>f\<rfloor> else \<lceil>f\<rceil>)"

text \<open>
  \<open>int64(float64(n) / float64(rate) * 1e9)\<close>: the duration of \<open>n\<close> samples at \<open>rate\<close>
  samples per second, in nanoseconds, for a rate other than zero (a division by zero
  gives an infinity or a NaN, and Go leaves their conversion to \<open>int64\<close> to the
  implementation).
\<close>

definition samples_ns :: "nat \<Rightarrow> int \<Rightarrow> int" where
  "samples_ns n rate =
     int64_of_float64
       (float64_mul (float64_div (float64_of_int (int n)) (float64_of_int rate)) 1000000000)"

subsection \<open>emulateRatePktDuration\<close>

text \<open>
  The two counts of the side data are read as unsigned 32-bit values; their sum is
  taken here without wrap-around, which is what the code computes whenever the sum is
  below \<open>2 ^ 32\<close>, whatever integer type the reading macro returns. The subtraction
  is an \<open>int64\<close> subtraction and wraps around.
\<close>

definition int64 :: "int \<Rightarrow> int" where
  "int64 x = (x + 2 ^ 63) mod 2 ^ 64 - 2 ^ 63"

definition emulateRatePktDuration :: "Packet \<Rightarrow> Context \<Rightarrow> int" where
  "emulateRatePktDuration pkt ctx =
     (case CodecType ctx of
        AVMEDIA_TYPE_AUDIO \<Rightarrow>
          (case pkt_skip_samples pkt of
             None \<Rightarrow> pkt_duration pkt
           | Some (skipStart, skipEnd) \<Rightarrow>
               int64 (pkt_duration pkt
                 - AvRescaleQ (samples_ns (skipStart + skipEnd) (SampleRate ctx))
                     nanosecondRational (ctx_TimeBase ctx)))
      | _ \<Rightarrow> pkt_duration pkt)"

subsection \<open>readFrame and the read loop\<close>

record demuxerPkt =
  dp_dts :: int
  dp_duration :: int
  dp_s :: nat

definition newDemuxerPkt :: "Packet \<Rightarrow> nat \<Rightarrow> demuxerPkt" where
  "newDemuxerPkt pkt s = \<lparr>dp_dts = pkt_dts pkt, dp_duration = pkt_duration pkt, dp_s = s\<rparr>"

text \<open>
  A stream as the demuxer indexes it: its context, the time the next packet is due
  (\<open>None\<close> for the zero time) and the pointer to the native stream.
\<close>

record demuxerStream =
  ds_ctx :: Context
  ds_emulateRateNextAt :: "int option"
  ds_s :: nat

text \<open>
  Modelled from the spec: the packet dispatcher and its pool are not among the sources;
  the pool is a buffer pool with the contract the frame pool implements (\<open>get\<close> hands
  out a recycled or a fresh buffer, \<open>put\<close> returns it to the free list).
\<close>

type_synonym pktPool = framePool

text \<open>
  The demuxer. \<open>dm_p\<close> is the packet pool of its dispatcher, \<open>dm_streams\<close> the native streams, \<open>dm_ss\<close> the map from stream
  index to stream. The effects are logged: \<open>dm_reads\<close> counts the native reads,
  \<open>dm_seeks\<close> lists the native seeks (stream index, time stamp, flags), \<open>dm_sleeps\<close> the
  sleeps of the rate emulation in nanoseconds, \<open>dm_dispatched\<close> the packets handed to
  the dispatcher with their stream, \<open>dm_events\<close> the errors emitted.
\<close>

record Demuxer =
  dm_emulateRate :: bool
  dm_loop :: bool
  dm_loopFirstPkt :: "demuxerPkt option"
  dm_restamper :: bool
  dm_ss :: "int \<rightharpoonup> demuxerStream"
  dm_streams :: streams
  dm_p :: pktPool
  dm_events :: "event list"
  dm_reads :: nat
  dm_seeks :: "(int \<times> int \<times> int) list"
  dm_sleeps :: "int list"
  dm_dispatched :: "(Packet \<times> nat) list"

text \<open>
  What one call of \<open>readFrame\<close> gets from outside: the return code of the native read
  and the packet it filled in, the return code of the native seek if one is made, what
  the restamper makes of a packet, and the clock.
\<close>

record read_env =
  re_read :: int
  re_pkt :: Packet
  re_seek :: int
  re_restamp :: "Packet \<Rightarrow> Packet"
  re_now :: int

text \<open>The rate emulation of \<open>readFrame\<close> (lines 440 to 452) for stream \<open>s\<close> with index \<open>i\<close>.\<close>

definition emulate_rate :: "read_env \<Rightarrow> Packet \<Rightarrow> int \<Rightarrow> demuxerStream \<Rightarrow> Demuxer \<Rightarrow> Demuxer" where
  "emulate_rate env pkt i s d =
     (let (nextAt, d1) =
            (case ds_emulateRateNextAt s of
               Some due \<Rightarrow>
                 (due, if 0 < due - re_now env
                       then d\<lparr>dm_sleeps := dm_sleeps d @ [due - re_now env]\<rparr>
                       else d)
             | None \<Rightarrow> (re_now env, d));
          nextAt' = nextAt + AvRescaleQ (emulateRatePktDuration pkt (ds_ctx s))
                      (st_TimeBase (dm_streams d (ds_s s))) nanosecondRational
      in d1\<lparr>dm_ss := (dm_ss d1)(i \<mapsto> s\<lparr>ds_emulateRateNextAt := Some nextAt'\<rparr>)\<rparr>)"

text \<open>
  \<open>readFrame\<close>: the result is the \<open>stop\<close> flag and the demuxer afterwards. The packet
  taken from the pool goes back on every path (the deferred \<open>put\<close>).
\<close>

definition readFrame :: "read_env \<Rightarrow> Demuxer \<Rightarrow> bool \<times> Demuxer" where
  "readFrame env d =
     (let (pkt, pl) = get (dm_p d);
          d1 = d\<lparr>dm_p := pl, dm_reads := dm_reads d + 1\<rparr>;
          ret = re_read env;
          (stop, d2) =
            (if ret < 0 then
               (if ret \<noteq> AVERROR_EOF \<or> \<not> dm_loop d1 then
                  (True,
                   if ret \<noteq> AVERROR_EOF
                   then d1\<lparr>dm_events := dm_events d1 @
                          [AvError ret ''ctxFormat.AvReadFrame on %s failed'']\<rparr>
                   else d1)
                else (case dm_loopFirstPkt d1 of
                        Some first \<Rightarrow>
                          (let d1' = d1\<lparr>dm_seeks := dm_seeks d1 @
                                 [(st_Index (dm_streams d1 (dp_s first)), dp_dts first,
                                   AVSEEK_FLAG_BACKWARD)]\<rparr>
                           in if re_seek env < 0
                              then (True, d1'\<lparr>dm_events := dm_events d1' @
                                      [AvError (re_seek env)
                                         ''ctxFormat.AvSeekFrame on %s with stream idx %v and ts %v failed'']\<rparr>)
                              else (False, d1'))
                      | None \<Rightarrow> (False, d1)))
             else
               (case dm_ss d1 (pkt_stream_index (re_pkt env)) of
                  None \<Rightarrow> (False, d1)
                | Some s \<Rightarrow>
                    (let p1 = (if dm_restamper d1 then re_restamp env (re_pkt env) else re_pkt env);
                         d3 = (if dm_loop d1 \<and> dm_loopFirstPkt d1 = None
                               then d1\<lparr>dm_loopFirstPkt := Some (newDemuxerPkt p1 (ds_s s))\<rparr>
                               else d1);
                         d4 = (if dm_emulateRate d3
                               then emulate_rate env p1 (pkt_stream_index (re_pkt env)) s d3
                               else d3)
                     in (False, d4\<lparr>dm_dispatched := dm_dispatched d4 @ [(p1, ds_s s)]\<rparr>))))
      in (stop, d2\<lparr>dm_p := put pkt (dm_p d2)\<rparr>))"

text \<open>
  The loop of \<open>Demuxer.Start\<close> (lines 380 to 395). Each iteration takes what
  \<open>readFrame\<close> gets from outside and whether the node's context is cancelled when the
  iteration checks it; the node is not paused, so \<open>HandlePause\<close> returns at once. The
  result says whether the loop has returned within the given iterations.
\<close>

fun Start_loop :: "(read_env \<times> bool) list \<Rightarrow> Demuxer \<Rightarrow> bool \<times> Demuxer" where
  "Start_loop [] d = (False, d)"
| "Start_loop ((env, cancelled) # rest) d =
     (let (stop, d') = readFrame env d
      in if stop then (True, d')
         else if cancelled then (True, d')
         else Start_loop rest d')"

text \<open>
  \<open>NewDemuxer\<close> on an input with the given streams; with \<open>loop\<close> a restamper is
  installed.
\<close>

definition NewDemuxer :: "bool \<Rightarrow> bool \<Rightarrow> (int \<rightharpoonup> demuxerStream) \<Rightarrow> streams \<Rightarrow> Demuxer" where
  "NewDemuxer emulate loop ss native =
     \<lparr>dm_emulateRate = emulate, dm_loop = loop, dm_loopFirstPkt = None, dm_restamper = loop,
      dm_ss = ss, dm_streams = native, dm_p = newFramePool, dm_events = [], dm_reads = 0,
      dm_seeks = [], dm_sleeps = [], dm_dispatched = []\<rparr>"

section \<open>Example demuxers\<close>

definition tb_48k :: Rational where "tb_48k = \<lparr>num = 1, den = 48000\<rparr>"

definition ctx_audio_48k :: Context where
  "ctx_audio_48k = \<lparr>CodecType = AVMEDIA_TYPE_AUDIO, SampleRate = 48000, ctx_TimeBase = tb_48k\<rparr>"

definition ctx_video_48k :: Context where
  "ctx_video_48k = \<lparr>CodecType = AVMEDIA_TYPE_VIDEO, SampleRate = 0, ctx_TimeBase = tb_48k\<rparr>"

text \<open>One audio stream, index 0, at address 0, in time base 1/48000.\<close>

definition ss_audio :: "int \<rightharpoonup> demuxerStream" where
  "ss_audio = [0 \<mapsto> \<lparr>ds_ctx = ctx_audio_48k, ds_emulateRateNextAt = None, ds_s = 0\<rparr>]"

definition native_48k :: streams where
  "native_48k = (\<lambda>_. \<lparr>st_Index = 0, st_TimeBase = tb_48k\<rparr>)"

text \<open>An audio packet of 1024 samples, with and without skip-samples side data.\<close>

definition pkt_1024 :: Packet where
  "pkt_1024 = \<lparr>pkt_pts = 0, pkt_dts = 0, pkt_duration = 1024, pkt_stream_index = 0,
               pkt_skip_samples = None\<rparr>"

definition pkt_1024_skip :: Packet where
  "pkt_1024_skip = pkt_1024\<lparr>pkt_skip_samples := Some (512, 0)\<rparr>"

text \<open>
  Reads: end of input with a seek that would succeed or fail, an I/O error, and a
  successful read of the packet with side data at clock 0.
\<close>

definition env_eof :: read_env where
  "env_eof = \<lparr>re_read = AVERROR_EOF, re_pkt = pkt_1024, re_seek = 0, re_restamp = id, re_now = 0\<rparr>"

definition env_eof_seek_fails :: read_env where
  "env_eof_seek_fails = env_eof\<lparr>re_seek := - 1\<rparr>"

definition env_eio :: read_env where
  "env_eio = env_eof\<lparr>re_read := - 5\<rparr>"

definition env_skip :: read_env where
  "env_skip = env_eof\<lparr>re_read := 0, re_pkt := pkt_1024_skip\<rparr>"

text \<open>A looping demuxer that has recorded its first packet (stream at address 0, \<open>dts\<close> 7).\<close>

definition demuxer_looping :: Demuxer where
  "demuxer_looping =
     (NewDemuxer False True ss_audio native_48k)
       \<lparr>dm_loopFirstPkt := Some \<lparr>dp_dts = 7, dp_duration = 1024, dp_s = 0\<rparr>\<rparr>"

section \<open>Properties of the workflow pool\<close>

text \<open>
  C9: \<open>AddWorkflow\<close> stores a workflow under its name, a later add under the same name
  replacing the earlier one, and \<open>Workflow\<close> returns the stored workflow for a
  registered name and the not-found error for any other; after adding a workflow named
  "a" to a new pool, looking up "a" gives that workflow and looking up "b" gives
  not-found.
\<close>

theorem workflow_pool_lookup:
  "Workflow (AddWorkflow w wp) (name w) = Inr w
   \<and> (name w' = name w \<longrightarrow> Workflow (AddWorkflow w' (AddWorkflow w wp)) (name w) = Inr w')
   \<and> (n \<noteq> name w \<longrightarrow> Workflow (AddWorkflow w wp) n = Workflow wp n)
   \<and> (Workflow wp n = Inl ErrWorkflowNotFound \<longleftrightarrow> ws wp n = None)
   \<and> (ws wp n = Some v \<longrightarrow> Workflow wp n = Inr v)
   \<and> (name w = ''a'' \<longrightarrow>
        Workflow (AddWorkflow w NewWorkflowPool) ''a'' = Inr w
        \<and> Workflow (AddWorkflow w NewWorkflowPool) ''b'' = Inl ErrWorkflowNotFound)"
  by (auto simp: Workflow_def AddWorkflow_def NewWorkflowPool_def split: option.splits)

text \<open>Two workflows named "a" at different addresses, added to a new pool one after the other.\<close>

theorem workflow_pool_lookup_witness:
  "Workflow (AddWorkflow \<lparr>name = ''a'', addr = 1\<rparr> NewWorkflowPool) ''a''
     = Inr \<lparr>name = ''a'', addr = 1\<rparr>
   \<and> Workflow (AddWorkflow \<lparr>name = ''a'', addr = 1\<rparr> NewWorkflowPool) ''b''
     = Inl ErrWorkflowNotFound
   \<and> Workflow NewWorkflowPool ''b'' = Inl ErrWorkflowNotFound
   \<and> Workflow (AddWorkflow \<lparr>name = ''a'', addr = 2\<rparr>
        (AddWorkflow \<lparr>name = ''a'', addr = 1\<rparr> NewWorkflowPool)) ''a''
     = Inr \<lparr>name = ''a'', addr = 2\<rparr>"
proof -
  let ?a1 = "\<lparr>name = ''a'', addr = 1\<rparr>" and ?a2 = "\<lparr>name = ''a'', addr = 2\<rparr>"
  have n: "name ?a1 = ''a''" "name ?a2 = name ?a1" "''b'' \<noteq> name ?a1"
    "ws NewWorkflowPool ''b'' = None"
    "ws (AddWorkflow ?a1 NewWorkflowPool) ''a'' = Some ?a1"
    by (simp_all add: NewWorkflowPool_def AddWorkflow_def)
  from workflow_pool_lookup [of ?a1 NewWorkflowPool ?a2 "''b''" ?a1]
    workflow_pool_lookup [of ?a1 "AddWorkflow ?a1 NewWorkflowPool" ?a2 "''a''" ?a1] n
  show ?thesis by simp
qed

section \<open>The frame dispatcher keeps its invariants\<close>

lemma after_fan_simps [simp]:
  "pc_seq (after_fan n f descr done rest) = Some n"
  "pc_done (after_fan n f descr done rest) = done"
  "pc_rest (after_fan n f descr done rest) = rest"
  "pc_added (after_fan n f descr done rest) = length rest"
  "pc_arg (after_fan n f descr done rest) = Some (f, descr)"
  "pc_fanning (after_fan n f descr done rest) = (if rest = [] then None else Some n)"
  by (simp_all add: after_fan_def)

lemma step_cases [consumes 1, case_names Call_empty Call_some Wait Fan_fail Fan_ok Run AddH DelH]:
  assumes "step a d = Some d'"
  obtains
    (Call_empty) f descr where "a = Call f descr []" "idle (d_pc d)" "d_hs d = []"
      "d' = d\<lparr>d_calls := d_calls d @ [(f, [])], d_pc := Returned (length (d_calls d)) f descr []\<rparr>"
  | (Call_some) f descr snap where "a = Call f descr snap" "snap \<noteq> []" "idle (d_pc d)"
      "mset snap = mset (map snd (d_hs d))"
      "d' = d\<lparr>d_calls := d_calls d @ [(f, snap)], d_pc := Waiting (length (d_calls d)) f descr snap\<rparr>"
  | (Wait) n f descr snap where "a = Wait" "d_pc d = Waiting n f descr snap" "d_wg d = 0"
      "d' = d\<lparr>d_wg := int (length snap), d_pc := Looping n f descr [] snap\<rparr>"
  | (Fan_fail) ret n f descr "done" h rest hF pl where "a = Fan ret"
      "d_pc d = Looping n f descr done (h # rest)" "ret < 0" "get (d_p d) = (hF, pl)"
      "d' = d\<lparr>d_p := pl, d_events := d_events d @ [AvError ret ''avutil.AvFrameRef failed''],
              d_wg := d_wg d - 1, d_pc := after_fan n f descr (done @ [(h, ret)]) rest\<rparr>"
  | (Fan_ok) ret n f descr "done" h rest hF pl where "a = Fan ret"
      "d_pc d = Looping n f descr done (h # rest)" "0 \<le> ret" "get (d_p d) = (hF, pl)"
      "d' = d\<lparr>d_p := pl,
              d_tasks := d_tasks d @ [\<lparr>t_h = h, t_frame = hF, t_src = f, t_descr = descr, t_seq = n\<rparr>],
              d_pc := after_fan n f descr (done @ [(h, ret)]) rest\<rparr>"
  | (Run) i xs t ys where "a = Run i" "d_tasks d = xs @ t # ys" "length xs = i"
      "d' = d\<lparr>d_handled := d_handled d @ [t], d_p := put (t_frame t) (d_p d),
              d_wg := d_wg d - 1, d_tasks := xs @ ys\<rparr>"
  | (AddH) h where "a = AddH h" "d' = d\<lparr>d_hs := AList.update (h_name h) h (d_hs d)\<rparr>"
  | (DelH) h where "a = DelH h" "d' = d\<lparr>d_hs := AList.delete (h_name h) (d_hs d)\<rparr>"
proof (cases a)
  case (Call f descr snap)
  with assms show ?thesis
    by (cases "snap = []") (auto split: if_splits intro: Call_empty Call_some)
next
  case Wait
  with assms show ?thesis
    by (auto split: pc.splits if_splits intro: that(3))
next
  case (Fan ret)
  from assms Fan obtain n f descr "done" h rest where
    pc: "d_pc d = Looping n f descr done (h # rest)"
    and d': "d' = (fan_one n f descr h ret d)\<lparr>d_pc := after_fan n f descr (done @ [(h, ret)]) rest\<rparr>"
    by (auto split: pc.splits list.splits if_splits)
  obtain hF pl where g: "get (d_p d) = (hF, pl)" by (cases "get (d_p d)")
  show ?thesis
  proof (cases "ret < 0")
    case True
    show ?thesis
      by (rule Fan_fail[OF Fan pc True g]) (simp add: d' fan_one_def g True)
  next
    case False
    then have "0 \<le> ret" by simp
    then show ?thesis
      by (rule Fan_ok[OF Fan pc _ g]) (simp add: d' fan_one_def g False)
  qed
next
  case (Run i)
  with assms have i: "i < length (d_tasks d)" and d': "d' = run_task i d"
    by (auto split: if_splits)
  have "d_tasks d = take i (d_tasks d) @ (d_tasks d ! i) # drop (Suc i) (d_tasks d)"
    using i by (simp add: id_take_nth_drop)
  then show ?thesis
    by (rule that(6)[OF Run]) (use i in \<open>simp_all add: d' run_task_def Let_def\<close>)
next
  case (AddH h)
  with assms show ?thesis by (auto simp: addHandler_def intro: that(7))
next
  case (DelH h)
  with assms show ?thesis by (auto simp: delHandler_def intro: that(8))
qed


lemma set_update_cases: "x \<in> set (AList.update k v al) \<Longrightarrow> x = (k, v) \<or> x \<in> set al"
  by (induction al) (auto split: if_splits)

lemma set_delete_sub: "x \<in> set (AList.delete k al) \<Longrightarrow> x \<in> set al"
  by (simp add: AList.delete_eq)

lemma hs_ok_step: "hs_ok d \<Longrightarrow> step a d = Some d' \<Longrightarrow> hs_ok d'"
  by (erule step_cases)
     (auto simp: hs_ok_def distinct_update distinct_delete dest!: set_update_cases set_delete_sub)

lemma keyed_distinct:
  "distinct (map fst al) \<Longrightarrow> \<forall>(k, h) \<in> set al. g h = k \<Longrightarrow> distinct (map snd al)"
  by (induction al) (force simp: image_iff)+

lemma hs_ok_distinct: "hs_ok d \<Longrightarrow> distinct (map snd (d_hs d))"
  unfolding hs_ok_def by (rule keyed_distinct[where g = h_name]) auto

lemma wg_ok_step: "wg_ok d \<Longrightarrow> step a d = Some d' \<Longrightarrow> wg_ok d'"
  by (erule step_cases) (auto simp: wg_ok_def idle_def split: pc.splits)

lemma get_cases:
  assumes "get fp = (f, fp')"
  obtains (fresh) "fp_p fp = []" "f = fp_allocs fp" "fp' = fp\<lparr>fp_allocs := Suc (fp_allocs fp)\<rparr>"
  | (recycled) r where "fp_p fp = f # r" "fp' = fp\<lparr>fp_p := r\<rparr>"
  using assms by (auto simp: get_def split: list.splits)

lemma frames_ok_step: "frames_ok d \<Longrightarrow> step a d = Some d' \<Longrightarrow> frames_ok d'"
proof (erule step_cases, goal_cases)
  case (4 ret n f descr "done" h rest hF pl)
  from \<open>get (d_p d) = (hF, pl)\<close> show ?case
    using 4 by (cases rule: get_cases) (auto simp: frames_ok_def less_Suc_eq)
next
  case (5 ret n f descr "done" h rest hF pl)
  from \<open>get (d_p d) = (hF, pl)\<close> show ?case
    using 5 by (cases rule: get_cases) (auto simp: frames_ok_def less_Suc_eq)
qed (auto simp: frames_ok_def put_def)

lemma snap_ok_step: "hs_ok d \<Longrightarrow> snap_ok d \<Longrightarrow> step a d = Some d' \<Longrightarrow> snap_ok d'"
proof (erule step_cases, goal_cases)
  case (2 f descr snap)
  have "distinct (map snd (d_hs d))" using 2 by (simp add: hs_ok_distinct)
  then have "distinct snap" using \<open>mset snap = mset (map snd (d_hs d))\<close>
    by (metis mset_eq_imp_distinct_iff)
  then show ?case using 2 by (simp add: snap_ok_def)
qed (auto simp: snap_ok_def)

lemma seq_ok_step: "seq_ok d \<Longrightarrow> step a d = Some d' \<Longrightarrow> seq_ok d'"
  by (erule step_cases) (auto simp: seq_ok_def less_Suc_eq)

lemma barrier_ok_step:
  assumes "wg_ok d" "barrier_ok d" "step a d = Some d'"
  shows "barrier_ok d'"
  using assms(3)
proof (cases rule: step_cases)
  case (Wait n f descr snap)
  with assms(1) have "d_tasks d = []" by (simp add: wg_ok_def)
  with Wait show ?thesis by (simp add: barrier_ok_def)
qed (use assms(2) in \<open>auto simp: barrier_ok_def\<close>)

lemma seq_ok_fresh:
  assumes "seq_ok d" "t \<in> set (d_handled d) \<union> set (d_tasks d)"
  shows "t_seq t \<noteq> length (d_calls d)"
proof -
  from assms have "t_seq t < length (d_calls d)" unfolding seq_ok_def by auto
  then show ?thesis by simp
qed

lemma account_ok_step:
  assumes "seq_ok d" "account_ok d" "step a d = Some d'"
  shows "account_ok d'"
  using assms(3)
proof (cases rule: step_cases)
  case (Call_empty f descr)
  with seq_ok_fresh[OF assms(1)] show ?thesis
    by (auto simp: account_ok_def invoked_def filter_empty_conv)
next
  case (Call_some f descr snap)
  with seq_ok_fresh[OF assms(1)] show ?thesis
    by (auto simp: account_ok_def invoked_def filter_empty_conv)
next
  case (Run i xs t ys)
  then have "length (invoked n h d') = length (invoked n h d)" for n h
    by (simp add: invoked_def)
  moreover have "set (d_handled d' @ d_tasks d') = set (d_handled d @ d_tasks d)"
    using Run by auto
  moreover have "d_pc d' = d_pc d" using Run by simp
  ultimately show ?thesis using assms(2) unfolding account_ok_def by simp
qed (use assms(2) in \<open>auto simp: account_ok_def invoked_def\<close>)


lemma not_yet_invoked:
  assumes "snap_ok d" "account_ok d" "d_pc d = Looping n f descr done (h # rest)"
  shows "invoked n h d = []"
proof -
  from assms(1,3) have "h \<notin> fst ` set done" by (auto simp: snap_ok_def)
  then have "filter (\<lambda>(h', r). h' = h \<and> 0 \<le> r) done = []"
    by (auto simp: filter_empty_conv image_iff)
  with assms(2,3) have "length (invoked n h d) = 0" by (simp add: account_ok_def)
  then show ?thesis by simp
qed

lemma order_ok_step:
  assumes "seq_ok d" "snap_ok d" "barrier_ok d" "account_ok d" "order_ok d" "step a d = Some d'"
  shows "order_ok d'"
  using assms(6)
proof (cases rule: step_cases)
  case (Run i xs t ys)
  with assms(5) show ?thesis
    by (auto simp: order_ok_def sorted_wrt_append)
next
  case (Fan_ok ret n f descr "done" h rest hF pl)
  have none: "invoked n h d = []" using assms(2,4) Fan_ok(2) by (rule not_yet_invoked)
  have a: "t_seq e < n" if "e \<in> set (d_handled d)" "t_h e = h" for e
  proof -
    from assms(1) that Fan_ok(2) have "t_seq e < Suc n" by (auto simp: seq_ok_def)
    moreover from none that have "t_seq e \<noteq> n" by (auto simp: invoked_def filter_empty_conv)
    ultimately show ?thesis by simp
  qed
  have b: "t_h t \<noteq> h" if "t \<in> set (d_tasks d)" for t
  proof -
    from assms(3) that Fan_ok(2) have "t_seq t = n" by (simp add: barrier_ok_def)
    with none that show ?thesis by (auto simp: invoked_def filter_empty_conv)
  qed
  from assms(5) a b Fan_ok show ?thesis by (auto simp: order_ok_def)
qed (use assms(5) in \<open>auto simp: order_ok_def\<close>)

lemma hist_ok_step:
  assumes "seq_ok d" "hist_ok d" "step a d = Some d'"
  shows "hist_ok d'"
  using assms(3)
proof (cases rule: step_cases)
  case (Call_empty f descr)
  with assms(1,2) show ?thesis by (auto simp: hist_ok_def seq_ok_def nth_append)
next
  case (Call_some f descr snap)
  with assms(1,2) show ?thesis by (auto simp: hist_ok_def seq_ok_def nth_append)
next
  case (Fan_ok ret n f descr "done" h rest hF pl)
  with assms(2) show ?thesis by (auto simp: hist_ok_def)
qed (use assms(2) in \<open>auto simp: hist_ok_def\<close>)

lemma copy_errors_snoc:
  "copy_errors (done @ [(h, ret)]) =
     (if ret < 0 then copy_errors done @ [AvError ret ''avutil.AvFrameRef failed'']
      else copy_errors done)"
  by (simp add: copy_errors_def)

lemma copy_errors_Nil [simp]: "copy_errors [] = []"
  by (simp add: copy_errors_def)

lemma events_ok_step:
  assumes "events_ok d" "step a d = Some d'"
  shows "events_ok d'"
  using assms(2)
proof (cases rule: step_cases)
  case (Fan_fail ret n f descr "done" h rest hF pl)
  with assms(1) show ?thesis by (simp add: events_ok_def copy_errors_snoc)
next
  case (Fan_ok ret n f descr "done" h rest hF pl)
  with assms(1) show ?thesis by (simp add: events_ok_def copy_errors_snoc)
qed (use assms(1) in \<open>auto simp: events_ok_def\<close>)

lemma returned_ok_step:
  assumes "barrier_ok d" "returned_ok d" "step a d = Some d'"
  shows "returned_ok d'"
  using assms(3)
proof (cases rule: step_cases)
  case (Fan_fail ret n f descr "done" h rest hF pl)
  with assms(1) have "\<forall>t \<in> set (d_tasks d). t_seq t = n" by (simp add: barrier_ok_def)
  with Fan_fail show ?thesis by (auto simp: returned_ok_def after_fan_def)
next
  case (Fan_ok ret n f descr "done" h rest hF pl)
  with assms(1) have "\<forall>t \<in> set (d_tasks d). t_seq t = n" by (simp add: barrier_ok_def)
  with Fan_ok show ?thesis by (auto simp: returned_ok_def after_fan_def)
qed (use assms(2) in \<open>auto simp: returned_ok_def\<close>)

lemma events_since_step:
  assumes "events_since n E d" "step a d = Some d'"
  shows "events_since n E d'"
  using assms(2)
proof (cases rule: step_cases)
  case (Fan_fail ret m f descr "done" h rest hF pl)
  with assms(1) show ?thesis by (auto simp: events_since_def copy_errors_snoc)
next
  case (Fan_ok ret m f descr "done" h rest hF pl)
  with assms(1) show ?thesis by (auto simp: events_since_def copy_errors_snoc)
qed (use assms(1) in \<open>auto simp: events_since_def\<close>)

lemma events_since_run: "events_since n E d \<Longrightarrow> run as d = Some d' \<Longrightarrow> events_since n E d'"
  by (induction as arbitrary: d) (auto split: option.splits dest: events_since_step)

lemma events_since_Call:
  "step (Call f descr snap) d = Some d' \<Longrightarrow> events_since (length (d_calls d)) (d_events d) d'"
  by (auto simp: events_since_def split: if_splits)

lemma run_append:
  "run (xs @ ys) d = (case run xs d of None \<Rightarrow> None | Some d' \<Rightarrow> run ys d')"
  by (induction xs arbitrary: d) (auto split: option.splits)

lemma inv_step: "dispatcher_inv d \<Longrightarrow> step a d = Some d' \<Longrightarrow> dispatcher_inv d'"
  unfolding dispatcher_inv_def
  by (intro conjI)
     (blast intro: hs_ok_step wg_ok_step frames_ok_step snap_ok_step seq_ok_step barrier_ok_step
        account_ok_step order_ok_step hist_ok_step events_ok_step returned_ok_step)+

lemma inv_new: "dispatcher_inv newFrameDispatcher"
  by (simp add: dispatcher_inv_def newFrameDispatcher_def newFramePool_def hs_ok_def wg_ok_def frames_ok_def
      snap_ok_def seq_ok_def barrier_ok_def account_ok_def order_ok_def hist_ok_def events_ok_def
      returned_ok_def)

lemma inv_run: "dispatcher_inv d \<Longrightarrow> run as d = Some d' \<Longrightarrow> dispatcher_inv d'"
  by (induction as arbitrary: d) (auto split: option.splits dest: inv_step)

lemma subseq_nths_sorted:
  "sorted_wrt (<) is \<Longrightarrow> \<forall>i \<in> set is. i < length xs \<Longrightarrow> subseq (map ((!) xs) is) xs"
proof (induction xs arbitrary: "is" rule: rev_induct)
  case Nil
  then show ?case by (cases "is") auto
next
  case (snoc x xs)
  show ?case
  proof (cases "is" rule: rev_cases)
    case Nil
    then show ?thesis by simp
  next
    case (snoc js j)
    with snoc.prems have js: "sorted_wrt (<) js" "\<forall>i \<in> set js. i < j" and j: "j \<le> length xs"
      by (auto simp: sorted_wrt_append)
    from js(2) j have lt: "\<forall>i \<in> set js. i < length xs" by auto
    then have eq: "map ((!) (xs @ [x])) js = map ((!) xs) js" by (simp add: nth_append)
    have emb: "subseq (map ((!) xs) js) xs" using js(1) lt by (rule snoc.IH)
    show ?thesis
    proof (cases "j = length xs")
      case True
      then show ?thesis using emb by (simp add: snoc eq)
    next
      case False
      with j have "j < length xs" by simp
      with lt have "\<forall>i \<in> set is. i < length xs" by (simp add: snoc)
      with snoc.prems(1) have "subseq (map ((!) xs) is) xs" by (rule snoc.IH)
      then have "subseq (map ((!) xs) is) (xs @ [x])" by (rule subseq_rev_drop_many)
      moreover have "map ((!) (xs @ [x])) is = map ((!) xs) is"
        using \<open>\<forall>i \<in> set is. i < length xs\<close> by (simp add: nth_append)
      ultimately show ?thesis by (simp only:)
    qed
  qed
qed

lemma filter_keyed:
  "distinct (map fst xs) \<Longrightarrow> (h, r) \<in> set xs \<Longrightarrow>
     filter (\<lambda>(h', r'). h' = h \<and> P r') xs = (if P r then [(h, r)] else [])"
  by (induction xs) (auto simp: filter_empty_conv image_iff)

section \<open>What a dispatch call has done when it returns\<close>

text \<open>
  C1 (as amended): in every interleaving of the producer, the goroutines and handler
  registration, when call \<open>n\<close> of \<open>dispatch\<close> has returned, its loop has visited
  exactly the handlers of its snapshot, each once; a handler whose frame copy succeeded
  has exactly one goroutine for this call (still outstanding or already finished), one
  whose copy failed has none; every such goroutine was given the frame and descriptor
  of the call; outstanding goroutines hold pairwise distinct pool frames that are not
  in the free list; and the wait group counts the outstanding goroutines. The call has
  emitted one error \<open>avutil.AvFrameRef failed\<close> for each copy that failed, in loop order,
  and nothing else: these errors are the last events, and they are all the events emitted
  since the call was made. The call has waited for the goroutines of earlier calls: where
  its loop started no goroutine was outstanding and the wait group was the size of the
  snapshot, and if it visited a handler, every goroutine outstanding at its return is one
  of its own. The call does not wait for its own goroutines. A call that finds the
  handler table empty returns at once, whatever is still outstanding.
\<close>

theorem dispatch_spawns_one_task_per_copied_handler:
  assumes "run as newFrameDispatcher = Some d" and "d_pc d = Returned n f descr done"
  shows "d_calls d ! n = (f, map fst done)
     \<and> distinct (map fst done)
     \<and> (\<forall>(h, ret) \<in> set done. length (invoked n h d) = (if 0 \<le> ret then 1 else 0))
     \<and> (\<forall>h. h \<notin> fst ` set done \<longrightarrow> invoked n h d = [])
     \<and> (\<forall>h. \<forall>t \<in> set (invoked n h d). t_src t = f \<and> t_descr t = descr)
     \<and> distinct (map t_frame (d_tasks d))
     \<and> set (map t_frame (d_tasks d)) \<inter> set (fp_p (d_p d)) = {}
     \<and> d_wg d = int (length (d_tasks d))
     \<and> (d_hs d = [] \<longrightarrow>
          step (Call g gdescr []) d =
            Some (d\<lparr>d_calls := d_calls d @ [(g, [])],
                    d_pc := Returned (length (d_calls d)) g gdescr []\<rparr>))
     \<and> suffix (copy_errors done) (d_events d)
     \<and> (\<forall>pre snap post d0.
          as = pre @ Call f descr snap # post \<and> run pre newFrameDispatcher = Some d0
          \<and> length (d_calls d0) = n
          \<longrightarrow> d_events d = d_events d0 @ copy_errors done)
     \<and> (\<forall>pre post d1 f' descr' snap.
          as = pre @ post \<and> run pre newFrameDispatcher = Some d1
          \<and> d_pc d1 = Looping n f' descr' [] snap
          \<longrightarrow> d_tasks d1 = [] \<and> d_wg d1 = int (length snap))
     \<and> (done \<noteq> [] \<longrightarrow> (\<forall>t \<in> set (d_tasks d). t_seq t = n))"
proof -
  have i: "dispatcher_inv d" using inv_new assms(1) by (rule inv_run)
  then have acc: "account_ok d" and sn: "snap_ok d" and hi: "hist_ok d" and fr: "frames_ok d"
    and wg: "wg_ok d" and ev: "events_ok d" and ro: "returned_ok d"
    by (simp_all add: dispatcher_inv_def)
  from sn assms(2) have dist: "distinct (map fst done)" by (simp add: snap_ok_def)
  from acc assms(2) have cnt:
    "length (invoked n h d) = length (filter (\<lambda>(h', r). h' = h \<and> 0 \<le> r) done)" for h
    by (simp add: account_ok_def)
  have one: "\<forall>(h, ret) \<in> set done. length (invoked n h d) = (if 0 \<le> ret then 1 else 0)"
    using cnt filter_keyed[OF dist, where P = "\<lambda>r. 0 \<le> r"] by auto
  have none: "\<forall>h. h \<notin> fst ` set done \<longrightarrow> invoked n h d = []"
  proof (intro allI impI)
    fix h assume "h \<notin> fst ` set done"
    then have "filter (\<lambda>(h', r). h' = h \<and> 0 \<le> r) done = []"
      by (auto simp: filter_empty_conv image_iff)
    with cnt[of h] show "invoked n h d = []" by simp
  qed
  from acc assms(2) have src: "\<forall>h. \<forall>t \<in> set (invoked n h d). t_src t = f \<and> t_descr t = descr"
    by (auto simp: account_ok_def invoked_def)
  from hi assms(2) have call: "d_calls d ! n = (f, map fst done)"
    by (auto simp: hist_ok_def prod_eq_iff)
  from ev assms(2) have suf: "suffix (copy_errors done) (d_events d)"
    by (simp add: events_ok_def)
  from ro assms(2) have own: "done \<noteq> [] \<longrightarrow> (\<forall>t \<in> set (d_tasks d). t_seq t = n)"
    by (simp add: returned_ok_def)
  have since: "\<forall>pre snap post d0.
          as = pre @ Call f descr snap # post \<and> run pre newFrameDispatcher = Some d0
          \<and> length (d_calls d0) = n
          \<longrightarrow> d_events d = d_events d0 @ copy_errors done"
  proof (intro allI impI, elim conjE)
    fix pre snap post d0
    assume a: "as = pre @ Call f descr snap # post"
      and r: "run pre newFrameDispatcher = Some d0" and l: "length (d_calls d0) = n"
    from assms(1) a r have "run (Call f descr snap # post) d0 = Some d"
      by (simp add: run_append)
    then obtain d1 where s: "step (Call f descr snap) d0 = Some d1" and r1: "run post d1 = Some d"
      by (cases "step (Call f descr snap) d0") simp_all
    from events_since_Call[OF s] l have "events_since n (d_events d0) d1" by simp
    then have "events_since n (d_events d0) d" using r1 by (rule events_since_run)
    with assms(2) show "d_events d = d_events d0 @ copy_errors done"
      by (simp add: events_since_def)
  qed
  have start: "\<forall>pre post d1 f' descr' snap.
          as = pre @ post \<and> run pre newFrameDispatcher = Some d1
          \<and> d_pc d1 = Looping n f' descr' [] snap
          \<longrightarrow> d_tasks d1 = [] \<and> d_wg d1 = int (length snap)"
  proof (intro allI impI, elim conjE)
    fix pre post :: "action list" and d1 f' descr' snap
    assume r: "run pre newFrameDispatcher = Some d1"
      and p: "d_pc d1 = Looping n f' descr' [] snap"
    have "dispatcher_inv d1" using inv_new r by (rule inv_run)
    then have b: "barrier_ok d1" and a: "account_ok d1" and w: "wg_ok d1"
      by (simp_all add: dispatcher_inv_def)
    have "d_tasks d1 = []"
    proof (rule ccontr)
      assume "d_tasks d1 \<noteq> []"
      then obtain t where t: "t \<in> set (d_tasks d1)" by (cases "d_tasks d1") auto
      with b p have "t_seq t = n" by (simp add: barrier_ok_def)
      with t have "t \<in> set (invoked n (t_h t) d1)" by (simp add: invoked_def)
      moreover from a p have "length (invoked n (t_h t) d1) = 0" by (simp add: account_ok_def)
      ultimately show False by simp
    qed
    with w p show "d_tasks d1 = [] \<and> d_wg d1 = int (length snap)" by (simp add: wg_ok_def)
  qed
  from fr have "distinct (map t_frame (d_tasks d))"
    "set (map t_frame (d_tasks d)) \<inter> set (fp_p (d_p d)) = {}"
    by (auto simp: frames_ok_def)
  moreover from wg assms(2) have "d_wg d = int (length (d_tasks d))" by (simp add: wg_ok_def)
  moreover from assms(2) have "d_hs d = [] \<longrightarrow>
          step (Call g gdescr []) d =
            Some (d\<lparr>d_calls := d_calls d @ [(g, [])],
                    d_pc := Returned (length (d_calls d)) g gdescr []\<rparr>)"
    by (simp add: idle_def)
  ultimately show ?thesis using call dist one none src suf since start own
    by (intro conjI) assumption+
qed

section \<open>The barrier between two dispatch calls\<close>

text \<open>
  C2 (as amended): when \<open>d.wait()\<close> lets a call through (the counter is zero) no
  goroutine of an earlier call is outstanding, and while the loop of call \<open>n\<close> runs
  every outstanding goroutine belongs to call \<open>n\<close>; so the calls a handler has served
  are strictly increasing, and the frames it has received form a subsequence of the
  frames dispatched, in dispatch order.
\<close>

theorem dispatch_barrier_and_order:
  assumes "run as newFrameDispatcher = Some d"
  shows "(\<forall>n f descr snap. d_pc d = Waiting n f descr snap \<and> d_wg d = 0 \<longrightarrow> d_tasks d = [])
     \<and> (\<forall>n f descr done rest. d_pc d = Looping n f descr done rest \<longrightarrow>
           (\<forall>t \<in> set (d_tasks d). t_seq t = n))
     \<and> sorted_wrt (<) (map t_seq (filter (\<lambda>t. t_h t = h) (d_handled d)))
     \<and> subseq (received h d) (dispatched d)"
proof -
  have i: "dispatcher_inv d" using inv_new assms(1) by (rule inv_run)
  then have wg: "wg_ok d" and ba: "barrier_ok d" and ord: "order_ok d" and hi: "hist_ok d"
    and sq: "seq_ok d"
    by (simp_all add: dispatcher_inv_def)
  from wg have 1: "\<forall>n f descr snap. d_pc d = Waiting n f descr snap \<and> d_wg d = 0 \<longrightarrow> d_tasks d = []"
    by (auto simp: wg_ok_def)
  from ba have 2: "\<forall>n f descr done rest. d_pc d = Looping n f descr done rest \<longrightarrow>
           (\<forall>t \<in> set (d_tasks d). t_seq t = n)"
    by (auto simp: barrier_ok_def)
  let ?is = "map t_seq (filter (\<lambda>t. t_h t = h) (d_handled d))"
  from ord have 3: "sorted_wrt (<) ?is" by (simp add: order_ok_def)
  from sq have lt: "\<forall>i \<in> set ?is. i < length (dispatched d)"
    by (auto simp: seq_ok_def dispatched_def)
  have "received h d = map ((!) (dispatched d)) ?is"
    using hi sq by (auto simp: received_def dispatched_def hist_ok_def seq_ok_def)
  with subseq_nths_sorted[OF 3 lt] have 4: "subseq (received h d) (dispatched d)" by simp
  from 1 2 3 4 show ?thesis by blast
qed


section \<open>Example runs\<close>

lemmas run_defs = newFrameDispatcher_def newFramePool_def addHandler_def delHandler_def idle_def
  after_fan_def fan_one_def get_def run_task_def put_def

lemma run_trace_two: "run trace_two newFrameDispatcher = Some state_two"
  by (simp add: trace_two_def state_two_def h1_def h2_def run_defs)

lemma run_trace_none: "run trace_none newFrameDispatcher = Some state_none"
  by (simp add: trace_none_def state_none_def run_defs)

lemma run_trace_wait: "run trace_wait newFrameDispatcher = Some state_wait"
  by (simp add: trace_wait_def state_wait_def h1_def h2_def run_defs)

lemma run_trace_loop: "run trace_loop newFrameDispatcher = Some state_loop"
  by (simp add: trace_loop_def state_loop_def h1_def h2_def run_defs)

lemma run_trace_skip: "run trace_skip newFrameDispatcher = Some state_skip"
  by (simp add: trace_skip_def state_skip_def h1_def run_defs)

lemma run_two_before_call:
  "run [AddH h1, AddH h2] newFrameDispatcher =
     Some (newFrameDispatcher\<lparr>d_hs := [(''h1'', h1), (''h2'', h2)]\<rparr>)"
  by (simp add: h1_def h2_def run_defs)

lemma run_two_loop_start:
  "run [AddH h1, AddH h2, Call 7 descr25 [h2, h1], Wait] newFrameDispatcher =
     Some (state_wait\<lparr>d_wg := 2, d_pc := Looping 0 7 descr25 [] [h2, h1]\<rparr>)"
  by (simp add: state_wait_def h1_def h2_def run_defs)

lemma run_one_returned:
  "run [AddH h1, Call 7 descr25 [h1], Wait, Fan 0] newFrameDispatcher =
     Some \<lparr>d_hs = [(''h1'', h1)], d_p = \<lparr>fp_p = [], fp_allocs = 1\<rparr>, d_wg = 1, d_events = [],
           d_tasks = [\<lparr>t_h = h1, t_frame = 0, t_src = 7, t_descr = descr25, t_seq = 0\<rparr>],
           d_handled = [], d_calls = [(7, [h1])], d_pc = Returned 0 7 descr25 [(h1, 0)]\<rparr>"
  by (simp add: h1_def run_defs)

text \<open>
  The run \<open>trace_two\<close> ends in a returned call; \<open>h2\<close>, whose copy succeeded, was
  served once and \<open>h1\<close>, whose copy failed, not at all; the one event emitted since the
  call was made is the error of the failed copy; where the loop started no goroutine was
  outstanding. With no handler registered a second call returns at once.
\<close>

theorem dispatch_spawns_one_task_per_copied_handler_witness:
  "run trace_two newFrameDispatcher = Some state_two
   \<and> d_pc state_two = Returned 0 7 descr25 [(h2, 0), (h1, - 12)]
   \<and> length (invoked 0 h2 state_two) = 1
   \<and> invoked 0 h1 state_two = []
   \<and> d_wg state_two = int (length (d_tasks state_two))
   \<and> trace_two = [AddH h1, AddH h2] @ Call 7 descr25 [h2, h1] # [Wait, Fan 0, Run 0, Fan (- 12)]
   \<and> run [AddH h1, AddH h2] newFrameDispatcher =
       Some (newFrameDispatcher\<lparr>d_hs := [(''h1'', h1), (''h2'', h2)]\<rparr>)
   \<and> d_events state_two =
       d_events (newFrameDispatcher\<lparr>d_hs := [(''h1'', h1), (''h2'', h2)]\<rparr>)
         @ copy_errors [(h2, 0), (h1, - 12)]
   \<and> copy_errors [(h2, 0), (h1, - 12)] = [AvError (- 12) ''avutil.AvFrameRef failed'']
   \<and> suffix [AvError (- 12) ''avutil.AvFrameRef failed''] (d_events state_two)
   \<and> trace_two = [AddH h1, AddH h2, Call 7 descr25 [h2, h1], Wait] @ [Fan 0, Run 0, Fan (- 12)]
   \<and> run [AddH h1, AddH h2, Call 7 descr25 [h2, h1], Wait] newFrameDispatcher =
       Some (state_wait\<lparr>d_wg := 2, d_pc := Looping 0 7 descr25 [] [h2, h1]\<rparr>)
   \<and> d_tasks (state_wait\<lparr>d_wg := 2, d_pc := Looping 0 7 descr25 [] [h2, h1]\<rparr>) = []
   \<and> map t_seq (d_tasks state_two) = []
   \<and> map t_seq
         (d_tasks \<lparr>d_hs = [(''h1'', h1)], d_p = \<lparr>fp_p = [], fp_allocs = 1\<rparr>, d_wg = 1, d_events = [],
           d_tasks = [\<lparr>t_h = h1, t_frame = 0, t_src = 7, t_descr = descr25, t_seq = 0\<rparr>],
           d_handled = [], d_calls = [(7, [h1])], d_pc = Returned 0 7 descr25 [(h1, 0)]\<rparr>) = [0]
   \<and> run trace_none newFrameDispatcher = Some state_none
   \<and> step (Call 8 descr25 []) state_none =
       Some (state_none\<lparr>d_calls := [(7, []), (8, [])], d_pc := Returned 1 8 descr25 []\<rparr>)"
proof -
  have p: "d_pc state_two = Returned 0 7 descr25 [(h2, 0), (h1, - 12)]"
    by (simp add: state_two_def)
  have q: "d_pc state_none = Returned 0 7 descr25 []" "d_hs state_none = []"
    "d_calls state_none = [(7, [])]"
    by (simp_all add: state_none_def newFrameDispatcher_def)
  have s1: "trace_two = [AddH h1, AddH h2] @ Call 7 descr25 [h2, h1] # [Wait, Fan 0, Run 0, Fan (- 12)]"
    and s2: "trace_two = [AddH h1, AddH h2, Call 7 descr25 [h2, h1], Wait] @ [Fan 0, Run 0, Fan (- 12)]"
    by (simp_all add: trace_two_def)
  have l0: "length (d_calls (newFrameDispatcher\<lparr>d_hs := [(''h1'', h1), (''h2'', h2)]\<rparr>)) = 0"
    by (simp add: newFrameDispatcher_def)
  have l1: "d_pc (state_wait\<lparr>d_wg := 2, d_pc := Looping 0 7 descr25 [] [h2, h1]\<rparr>)
      = Looping 0 7 descr25 [] [h2, h1]"
    by simp
  have ce: "copy_errors [(h2, 0), (h1, - 12)] = [AvError (- 12) ''avutil.AvFrameRef failed'']"
    by (simp add: copy_errors_def)
  note two = dispatch_spawns_one_task_per_copied_handler [OF run_trace_two p]
  have ev: "d_events state_two =
       d_events (newFrameDispatcher\<lparr>d_hs := [(''h1'', h1), (''h2'', h2)]\<rparr>)
         @ copy_errors [(h2, 0), (h1, - 12)]"
    using two s1 run_two_before_call l0 by blast
  have st: "d_tasks (state_wait\<lparr>d_wg := 2, d_pc := Looping 0 7 descr25 [] [h2, h1]\<rparr>) = []"
    using two s2 run_two_loop_start l1 by blast
  have "\<forall>t \<in> set (d_tasks state_two). t_seq t = 0"
    using two by blast
  then have own: "map t_seq (d_tasks state_two) = []"
    by (simp add: state_two_def)
  have "\<forall>t \<in> set (d_tasks \<lparr>d_hs = [(''h1'', h1)], d_p = \<lparr>fp_p = [], fp_allocs = 1\<rparr>, d_wg = 1,
           d_events = [],
           d_tasks = [\<lparr>t_h = h1, t_frame = 0, t_src = 7, t_descr = descr25, t_seq = 0\<rparr>],
           d_handled = [], d_calls = [(7, [h1])], d_pc = Returned 0 7 descr25 [(h1, 0)]\<rparr>).
          t_seq t = 0"
    using dispatch_spawns_one_task_per_copied_handler [OF run_one_returned, of 0 7 descr25 "[(h1, 0)]"]
    by simp
  then have own1: "map t_seq
         (d_tasks \<lparr>d_hs = [(''h1'', h1)], d_p = \<lparr>fp_p = [], fp_allocs = 1\<rparr>, d_wg = 1, d_events = [],
           d_tasks = [\<lparr>t_h = h1, t_frame = 0, t_src = 7, t_descr = descr25, t_seq = 0\<rparr>],
           d_handled = [], d_calls = [(7, [h1])], d_pc = Returned 0 7 descr25 [(h1, 0)]\<rparr>) = [0]"
    by simp
  have suf: "suffix [AvError (- 12) ''avutil.AvFrameRef failed''] (d_events state_two)"
    using two ce by simp
  from two
    dispatch_spawns_one_task_per_copied_handler [OF run_trace_none q(1), of 8 descr25]
    run_trace_two run_trace_none p q s1 s2 run_two_before_call run_two_loop_start ev st own own1 suf ce
  show ?thesis by simp
qed

text \<open>
  C1 as stated fails: with one handler and a successful copy, \<open>dispatch\<close> has
  returned while the handler's goroutine is still outstanding and no \<open>HandleFrame\<close>
  call has completed.
\<close>

theorem dispatch_returns_before_handlers_complete:
  "map_option d_pc (run [AddH h1, Call 7 descr25 [h1], Wait, Fan 0] newFrameDispatcher)
     = Some (Returned 0 7 descr25 [(h1, 0)])
   \<and> map_option d_handled (run [AddH h1, Call 7 descr25 [h1], Wait, Fan 0] newFrameDispatcher)
     = Some []
   \<and> map_option d_tasks (run [AddH h1, Call 7 descr25 [h1], Wait, Fan 0] newFrameDispatcher)
     = Some [\<lparr>t_h = h1, t_frame = 0, t_src = 7, t_descr = descr25, t_seq = 0\<rparr>]
   \<and> map_option d_wg (run [AddH h1, Call 7 descr25 [h1], Wait, Fan 0] newFrameDispatcher)
     = Some 1"
  by (simp add: h1_def run_defs)

text \<open>
  In the run \<open>trace_skip\<close> handler \<open>h1\<close> receives frame 8 only, a subsequence of
  the dispatched frames 7, 8. Where the producer waits at a zero counter no goroutine is
  outstanding, and inside the loop of call 0 the outstanding goroutine belongs to call 0.
\<close>

theorem dispatch_barrier_and_order_witness:
  "run trace_skip newFrameDispatcher = Some state_skip
   \<and> sorted_wrt (<) (map t_seq (filter (\<lambda>t. t_h t = h1) (d_handled state_skip)))
   \<and> subseq (received h1 state_skip) (dispatched state_skip)
   \<and> received h1 state_skip = [8] \<and> dispatched state_skip = [7, 8]
   \<and> run trace_wait newFrameDispatcher = Some state_wait
   \<and> d_wg state_wait = 0 \<and> d_tasks state_wait = []
   \<and> run trace_loop newFrameDispatcher = Some state_loop
   \<and> map t_seq (d_tasks state_loop) = [0]"
proof -
  have "received h1 state_skip = [8]" "dispatched state_skip = [7, 8]"
    by (simp_all add: received_def dispatched_def state_skip_def)
  moreover have w: "d_pc state_wait = Waiting 0 7 descr25 [h2, h1] \<and> d_wg state_wait = 0"
    by (simp add: state_wait_def newFrameDispatcher_def)
  moreover have l: "d_pc state_loop = Looping 0 7 descr25 [(h2, 0)] [h1]"
    "d_tasks state_loop = [\<lparr>t_h = h2, t_frame = 0, t_src = 7, t_descr = descr25, t_seq = 0\<rparr>]"
    by (simp_all add: state_loop_def)
  moreover have "d_tasks state_wait = []"
    using dispatch_barrier_and_order [OF run_trace_wait, of h1] w by blast
  moreover have "\<forall>t \<in> set (d_tasks state_loop). t_seq t = 0"
    using dispatch_barrier_and_order [OF run_trace_loop, of h1] l(1) by blast
  ultimately show ?thesis
    using dispatch_barrier_and_order [OF run_trace_skip, of h1] run_trace_skip run_trace_wait
      run_trace_loop
    by simp
qed

text \<open>
  C2 as stated fails: in that run the frames \<open>h1\<close> received are not a prefix of the
  frames dispatched, since the copy of frame 7 for \<open>h1\<close> failed.
\<close>

theorem received_not_prefix_of_dispatched:
  "run trace_skip newFrameDispatcher = Some state_skip
   \<and> received h1 state_skip = [8] \<and> dispatched state_skip = [7, 8]
   \<and> \<not> prefix (received h1 state_skip) (dispatched state_skip)"
  by (simp add: run_trace_skip) (simp add: received_def dispatched_def state_skip_def)

section \<open>Frames on the error paths\<close>

text \<open>On the success path the forwarder's consumer returns the frame.\<close>

lemma forwarder_returns_frame_on_success:
  "fw_p (forwarder_process (HandleFrame descr25 0 NewForwarder)) = \<lparr>fp_p = [0], fp_allocs = 1\<rparr>"
  by (simp add: forwarder_process_def HandleFrame_def NewForwarder_def newFramePool_def get_def put_def)

text \<open>
  C3 fails on the code: when \<open>AvFrameRef\<close> fails, the frame that \<open>get\<close> took from
  the pool is not put back. After \<open>dispatch\<close> with one handler and a failing copy,
  frame 0 has been allocated but is neither in the free list nor held by a goroutine;
  after \<open>HandleFrame\<close> with a failing copy it is neither in the free list nor captured
  by a queued closure.
\<close>

theorem frame_not_returned_when_ref_fails:
  "map_option d_p (run [AddH h1, Call 7 descr25 [h1], Wait, Fan (- 12)] newFrameDispatcher)
     = Some \<lparr>fp_p = [], fp_allocs = 1\<rparr>
   \<and> map_option d_tasks (run [AddH h1, Call 7 descr25 [h1], Wait, Fan (- 12)] newFrameDispatcher)
     = Some []
   \<and> map_option d_pc (run [AddH h1, Call 7 descr25 [h1], Wait, Fan (- 12)] newFrameDispatcher)
     = Some (Returned 0 7 descr25 [(h1, - 12)])
   \<and> fw_p (HandleFrame descr25 (- 12) NewForwarder) = \<lparr>fp_p = [], fp_allocs = 1\<rparr>
   \<and> fw_c (HandleFrame descr25 (- 12) NewForwarder) = []"
  by (simp add: h1_def run_defs HandleFrame_def NewForwarder_def)

section \<open>The muxer's queue consumer\<close>

lemma handle_item_fields [simp]:
  "m_o (handle_item wr dp m) = m_o m"
  "m_c (handle_item wr dp m) = m_c m"
  "m_q (handle_item wr dp m) = m_q m"
  "m_restamper (handle_item wr dp m) = m_restamper m"
  "m_streams (handle_item wr dp m) = m_streams m"
  "m_header_calls (handle_item wr dp m) = m_header_calls m"
  "m_trailer_calls (handle_item wr dp m) = m_trailer_calls m"
  "m_write_calls (handle_item wr dp m) = m_write_calls m + 1"
  "m_statIncomingRate (handle_item wr dp m) = m_statIncomingRate m + 1"
  by (simp_all add: handle_item_def Let_def)

lemma q_Start_fields [simp]:
  "m_o (q_Start wr q m) = m_o m"
  "m_c (q_Start wr q m) = m_c m"
  "m_q (q_Start wr q m) = m_q m"
  "m_restamper (q_Start wr q m) = m_restamper m"
  "m_streams (q_Start wr q m) = m_streams m"
  "m_header_calls (q_Start wr q m) = m_header_calls m"
  "m_trailer_calls (q_Start wr q m) = m_trailer_calls m"
  "m_write_calls (q_Start wr q m) = m_write_calls m + length q"
  "m_statIncomingRate (q_Start wr q m) = m_statIncomingRate m + length q"
  by (induction q arbitrary: m; simp)+

lemma q_Start_append: "q_Start wr (q1 @ q2) m = q_Start wr q2 (q_Start wr q1 m)"
  by (induction q1 arbitrary: m) simp_all

lemma handle_item_failed:
  "wr (m_write_calls m) (item_pkt m dp) < 0 \<Longrightarrow>
     handle_item wr dp m =
       m\<lparr>m_statIncomingRate := m_statIncomingRate m + 1,
         m_write_calls := m_write_calls m + 1,
         m_events := m_events m @
           [AvError (wr (m_write_calls m) (item_pkt m dp)) ''m.ctxFormat.AvInterleavedWriteFrame failed'']\<rparr>"
  by (simp add: handle_item_def item_pkt_def Let_def)

lemma handle_item_written:
  "0 \<le> wr (m_write_calls m) (item_pkt m dp) \<Longrightarrow>
     handle_item wr dp m =
       m\<lparr>m_statIncomingRate := m_statIncomingRate m + 1,
         m_write_calls := m_write_calls m + 1,
         m_written := m_written m @ [item_pkt m dp]\<rparr>"
  by (simp add: handle_item_def item_pkt_def Let_def)

text \<open>
  C8: in a run that got past the header check, when the native write of a dequeued
  packet fails, the error is emitted, the packet is not added to the written ones and
  nothing else changes but the counters; the body does not return there: the queue goes
  on with the items behind the failed one, so every queued item reaches the native
  write.
\<close>

theorem write_failure_does_not_stop:
  assumes "m_o m \<or> 0 \<le> fst hdr"
    and "m_q m = front @ dp # behind"
    and "mh = (if m_o m then m else m\<lparr>m_o := True, m_header_calls := m_header_calls m + 1,
                 m_streams := snd hdr (m_streams m)\<rparr>)\<lparr>m_c := m_c m @ [WriteTrailer]\<rparr>"
    and "mf = q_Start wr front mh"
    and "wr (m_write_calls mf) (item_pkt mf dp) < 0"
  shows "Start_body hdr wr m =
       (True, (q_Start wr behind
          (mf\<lparr>m_statIncomingRate := m_statIncomingRate mf + 1,
              m_write_calls := m_write_calls mf + 1,
              m_events := m_events mf @
                [AvError (wr (m_write_calls mf) (item_pkt mf dp))
                   ''m.ctxFormat.AvInterleavedWriteFrame failed'']\<rparr>))\<lparr>m_q := []\<rparr>)
     \<and> m_write_calls (snd (Start_body hdr wr m)) = m_write_calls m + length front + 1 + length behind"
proof -
  have "Start_body hdr wr m = (True, (q_Start wr (m_q mh) mh)\<lparr>m_q := []\<rparr>)"
    using assms(1,3) by (auto simp: Start_body_def Let_def)
  moreover have "m_q mh = front @ dp # behind" using assms(2,3) by simp
  moreover have "q_Start wr (front @ dp # behind) mh = q_Start wr behind (handle_item wr dp mf)"
    by (simp add: q_Start_append assms(4))
  moreover note handle_item_failed[of wr mf dp, OF assms(5)]
  moreover have "m_write_calls mh = m_write_calls m" using assms(3) by simp
  ultimately show ?thesis by (simp add: assms(4))
qed

section \<open>Header and trailer of the muxer\<close>

lemma Start_body_once:
  "m_o (snd (Start_body hdr wr m))"
  "m_o m \<Longrightarrow> m_header_calls (snd (Start_body hdr wr m)) = m_header_calls m"
  "\<not> m_o m \<Longrightarrow> m_header_calls (snd (Start_body hdr wr m)) = m_header_calls m + 1"
  "m_trailer_calls (snd (Start_body hdr wr m)) = m_trailer_calls m"
  by (auto simp: Start_body_def Let_def split: prod.splits)

lemma Start_many_started:
  "m_o m \<Longrightarrow> m_header_calls (Start_many runs m) = m_header_calls m"
  by (induction runs arbitrary: m) (auto simp: Start_body_once)

lemma Start_many_no_trailer: "m_trailer_calls (Start_many runs m) = m_trailer_calls m"
  by (induction runs arbitrary: m) (auto simp: Start_body_once)

lemma fold_run_hook:
  "m_trailer_calls (fold run_hook hs m) = m_trailer_calls m + length (filter (\<lambda>h. h = WriteTrailer) hs)"
proof (induction hs arbitrary: m)
  case Nil
  then show ?case by simp
next
  case (Cons h hs)
  then show ?case by (cases h) simp_all
qed

lemma Close_trailers:
  "m_trailer_calls (Close m) = m_trailer_calls m + length (filter (\<lambda>h. h = WriteTrailer) (m_c m))"
  by (simp add: Close_def fold_run_hook rev_filter [symmetric])

lemma Start_body_hooks:
  "m_c (snd (Start_body hdr wr m)) =
     (if \<not> m_o m \<and> fst hdr < 0 then m_c m else m_c m @ [WriteTrailer])"
  by (auto simp: Start_body_def Let_def split: prod.splits)

text \<open>
  The header: for a muxer started and stopped one or more times, \<open>AvformatWriteHeader\<close>
  is called exactly once, in the first run, and later runs do not call it again; if the
  call fails, the error is emitted and the body returns there (the node stops), with no
  trailer hook registered and no packet processed; if it succeeds and the muxer is
  started once, one trailer is written at teardown.
\<close>

lemma header_once_and_trailer_of_single_run:
  assumes "never_started m"
  shows "m_header_calls (Start_many ((hdr, wr) # runs) m) = 1
     \<and> m_header_calls (snd (Start_body hdr wr m)) = 1
     \<and> (fst hdr < 0 \<longrightarrow>
          Start_body hdr wr m =
            (False, m\<lparr>m_o := True, m_header_calls := 1, m_streams := snd hdr (m_streams m),
                      m_events := m_events m @
                        [AvError (fst hdr) ''m.ctxFormat.AvformatWriteHeader on %s failed'']\<rparr>))
     \<and> (0 \<le> fst hdr \<longrightarrow>
          fst (Start_body hdr wr m)
          \<and> m_trailer_calls (Start_many [(hdr, wr)] m) = 0
          \<and> m_trailer_calls (Close (Start_many [(hdr, wr)] m)) = 1)"
proof -
  from assms have m: "\<not> m_o m" "m_header_calls m = 0" "m_trailer_calls m = 0"
    "WriteTrailer \<notin> set (m_c m)"
    by (simp_all add: never_started_def)
  have 1: "m_header_calls (snd (Start_body hdr wr m)) = 1"
    using m by (simp add: Start_body_once)
  have 2: "m_header_calls (Start_many ((hdr, wr) # runs) m) = 1"
    using 1 by (simp add: Start_many_started Start_body_once)
  have 3: "fst hdr < 0 \<longrightarrow>
          Start_body hdr wr m =
            (False, m\<lparr>m_o := True, m_header_calls := 1, m_streams := snd hdr (m_streams m),
                      m_events := m_events m @
                        [AvError (fst hdr) ''m.ctxFormat.AvformatWriteHeader on %s failed'']\<rparr>)"
    using m by (simp add: Start_body_def)
  have "filter (\<lambda>h. h = WriteTrailer) (m_c m) = []"
    using m(4) by (auto simp: filter_empty_conv)
  then have 4: "0 \<le> fst hdr \<longrightarrow>
          fst (Start_body hdr wr m)
          \<and> m_trailer_calls (Start_many [(hdr, wr)] m) = 0
          \<and> m_trailer_calls (Close (Start_many [(hdr, wr)] m)) = 1"
    using m by (auto simp: Close_trailers Start_body_hooks Start_body_once) (simp add: Start_body_def Let_def)
  from 1 2 3 4 show ?thesis by blast
qed

section \<open>Example runs of the muxer\<close>

lemmas muxer_example_defs = NewMuxer_def ss_90k_def wr_ok_def wr_second_fails_def hdr_ok_def
  hdr_eio_def payload_ms_def muxer_three_def tb_ms_def tb_90k_def NewPktHandler_def HandlePkt_def

lemmas muxer_eval_defs = Start_body_def handle_item_def Close_def pktHandlerPayloadRetriever_def
  AvPacketRescaleTs_def AvRescaleQ_def av_rescale_rnd_near_inf_def AV_NOPTS_VALUE_def
  INT64_MIN_def INT64_MAX_def Let_def

lemma never_started_NewMuxer: "never_started (NewMuxer r ss)"
  by (simp add: never_started_def NewMuxer_def)

text \<open>
  Every run that gets past the header check adds one more trailer hook to the closer, so
  teardown calls \<open>AvWriteTrailer\<close> once per such run.
\<close>

lemma trailer_hook_added_by_every_run:
  assumes "never_started m" "0 \<le> fst hdr"
  shows "m_trailer_calls (Close (Start_many ((hdr, wr) # runs) m)) = 1 + length runs"
proof -
  have hooks: "m_o m' \<Longrightarrow> length (filter (\<lambda>h. h = WriteTrailer) (m_c (Start_many rs m')))
      = length (filter (\<lambda>h. h = WriteTrailer) (m_c m')) + length rs" for m' rs
    by (induction rs arbitrary: m') (auto simp: Start_body_hooks Start_body_once)
  from assms have "filter (\<lambda>h. h = WriteTrailer) (m_c m) = []" "m_trailer_calls m = 0"
    by (auto simp: never_started_def filter_empty_conv)
  then show ?thesis
    using assms(2) hooks[of "snd (Start_body hdr wr m)" runs]
    by (simp add: Close_trailers Start_many_no_trailer Start_body_once Start_body_hooks)
qed

text \<open>
  A new muxer: two runs call the header write once, one run leads to one trailer at
  teardown, and a failing header write ends the run with the error emitted.
\<close>

lemma header_once_and_trailer_of_single_run_example:
  "never_started (NewMuxer None ss_90k)
   \<and> m_header_calls (Start_many [(hdr_ok, wr_ok), (hdr_ok, wr_ok)] (NewMuxer None ss_90k)) = 1
   \<and> m_trailer_calls (Close (Start_many [(hdr_ok, wr_ok)] (NewMuxer None ss_90k))) = 1
   \<and> fst (Start_body hdr_eio wr_ok (NewMuxer None ss_90k)) = False
   \<and> m_events (snd (Start_body hdr_eio wr_ok (NewMuxer None ss_90k)))
       = [AvError (- 5) ''m.ctxFormat.AvformatWriteHeader on %s failed'']"
proof -
  have n: "never_started (NewMuxer None ss_90k)" by (rule never_started_NewMuxer)
  have ok: "0 \<le> fst hdr_ok" and bad: "fst hdr_eio < 0" by (simp_all add: hdr_ok_def hdr_eio_def)
  have "m_header_calls (Start_many [(hdr_ok, wr_ok), (hdr_ok, wr_ok)] (NewMuxer None ss_90k)) = 1"
    "m_trailer_calls (Close (Start_many [(hdr_ok, wr_ok)] (NewMuxer None ss_90k))) = 1"
    using header_once_and_trailer_of_single_run [OF n, of hdr_ok wr_ok "[(hdr_ok, wr_ok)]"] ok
    by simp_all
  moreover have "fst (Start_body hdr_eio wr_ok (NewMuxer None ss_90k)) = False"
    "m_events (snd (Start_body hdr_eio wr_ok (NewMuxer None ss_90k)))
       = [AvError (- 5) ''m.ctxFormat.AvformatWriteHeader on %s failed'']"
    using header_once_and_trailer_of_single_run [OF n, of hdr_eio wr_ok "[]"] bad
    by (simp_all add: NewMuxer_def hdr_eio_def)
  ultimately show ?thesis using n by simp
qed

text \<open>
  Started once with a header write that fails, the muxer writes no trailer at teardown:
  the body has returned before the hook is registered.
\<close>

lemma no_trailer_after_failed_header:
  "m_header_calls (Start_many [(hdr_eio, wr_ok)] (NewMuxer None ss_90k)) = 1
   \<and> fst (Start_body hdr_eio wr_ok (NewMuxer None ss_90k)) = False
   \<and> m_trailer_calls (Close (Start_many [(hdr_eio, wr_ok)] (NewMuxer None ss_90k))) = 0"
  by (simp add: muxer_example_defs muxer_eval_defs)

text \<open>
  C4 fails on the code: a new muxer started and stopped twice over the same output, the
  header write succeeding, calls \<open>AvformatWriteHeader\<close> once, as claimed, but each of the
  two runs adds its own trailer hook to the closer, since the hook is registered after the
  header check without the once-guard the header has; teardown runs both hooks and calls
  \<open>AvWriteTrailer\<close> twice, not once. A third run adds a third.
\<close>

theorem trailer_written_once_per_run:
  "m_header_calls (Start_many [(hdr_ok, wr_ok), (hdr_ok, wr_ok)] (NewMuxer None ss_90k)) = 1
   \<and> m_c (Start_many [(hdr_ok, wr_ok)] (NewMuxer None ss_90k))
       = [FreeContext, CloseAvIO, WriteTrailer]
   \<and> m_c (Start_many [(hdr_ok, wr_ok), (hdr_ok, wr_ok)] (NewMuxer None ss_90k))
       = [FreeContext, CloseAvIO, WriteTrailer, WriteTrailer]
   \<and> m_trailer_calls (Start_many [(hdr_ok, wr_ok), (hdr_ok, wr_ok)] (NewMuxer None ss_90k)) = 0
   \<and> m_trailer_calls (Close (Start_many [(hdr_ok, wr_ok), (hdr_ok, wr_ok)] (NewMuxer None ss_90k))) = 2
   \<and> m_trailer_calls
        (Close (Start_many [(hdr_ok, wr_ok), (hdr_ok, wr_ok), (hdr_ok, wr_ok)] (NewMuxer None ss_90k))) = 3"
  by (simp add: muxer_example_defs muxer_eval_defs)

text \<open>
  Three payloads queued, the second native write failing: the run goes on, the first and
  third packets are written, one error is emitted and all three writes are attempted.
\<close>

theorem write_failure_does_not_stop_witness:
  "fst (Start_body hdr_ok wr_second_fails muxer_three)
   \<and> map pkt_pts (m_written (snd (Start_body hdr_ok wr_second_fails muxer_three))) = [90000, 270000]
   \<and> m_events (snd (Start_body hdr_ok wr_second_fails muxer_three))
       = [AvError (- 32) ''m.ctxFormat.AvInterleavedWriteFrame failed'']
   \<and> m_write_calls (snd (Start_body hdr_ok wr_second_fails muxer_three)) = 3"
proof -
  let ?h = "NewPktHandler 0"
  let ?m1 = "(if m_o muxer_three then muxer_three
             else muxer_three\<lparr>m_o := True, m_header_calls := m_header_calls muxer_three + 1,
                 m_streams := snd hdr_ok (m_streams muxer_three)\<rparr>)\<lparr>m_c := m_c muxer_three @ [WriteTrailer]\<rparr>"
  let ?q1 = "[pktHandlerPayloadRetriever ?h (payload_ms 1000)]"
  let ?dp = "pktHandlerPayloadRetriever ?h (payload_ms 2000)"
  let ?q2 = "[pktHandlerPayloadRetriever ?h (payload_ms 3000)]"
  have a1: "m_o muxer_three \<or> 0 \<le> fst hdr_ok" by (simp add: hdr_ok_def)
  have a2: "m_q muxer_three = ?q1 @ ?dp # ?q2" by (simp add: muxer_three_def HandlePkt_def NewMuxer_def)
  have a5: "wr_second_fails (m_write_calls (q_Start wr_second_fails ?q1 ?m1))
              (item_pkt (q_Start wr_second_fails ?q1 ?m1) ?dp) < 0"
    by (simp add: wr_second_fails_def muxer_three_def HandlePkt_def NewMuxer_def)
  from write_failure_does_not_stop [where mh = ?m1 and mf = "q_Start wr_second_fails ?q1 ?m1",
      OF a1 a2 refl refl a5]
  show ?thesis
    by (simp add: muxer_example_defs muxer_eval_defs item_pkt_def)
qed

section \<open>The muxer's packet handler\<close>

text \<open>
  C6: the closure \<open>MuxerPktHandler\<close> queues for a payload gives, when it is called,
  the payload with its packet rescaled from the descriptor's time base to the time base
  the target stream has at that moment and with the stream's index; the muxer calls it
  at dequeue time, with its stream store of that moment. For payloads in 1/1000 with
  time stamps 1000 and 2000 and a target stream in 1/90000 (after the header write), the
  packets written carry 90000 and 180000.
\<close>

theorem retriever_rescales_at_dequeue:
  "pktHandlerPayloadRetriever h p ss =
     p\<lparr>pp_Pkt := (AvPacketRescaleTs (pp_Pkt p) (TimeBase (pp_Descriptor p))
                   (st_TimeBase (ss (mh_o h))))\<lparr>pkt_stream_index := st_Index (ss (mh_o h))\<rparr>\<rparr>
   \<and> m_q (HandlePkt h p m) = m_q m @ [pktHandlerPayloadRetriever h p]
   \<and> item_pkt (m\<lparr>m_restamper := None\<rparr>) (pktHandlerPayloadRetriever h p) =
       (AvPacketRescaleTs (pp_Pkt p) (TimeBase (pp_Descriptor p))
          (st_TimeBase (m_streams m (mh_o h))))\<lparr>pkt_stream_index := st_Index (m_streams m (mh_o h))\<rparr>
   \<and> (0 \<le> fst hdr \<and> snd hdr ss0 (mh_o h) = \<lparr>st_Index = i, st_TimeBase = tb_90k\<rparr> \<longrightarrow>
        m_written (snd (Start_body hdr wr_ok
          (HandlePkt h (payload_ms 2000) (HandlePkt h (payload_ms 1000) (NewMuxer None ss0)))))
        = [\<lparr>pkt_pts = 90000, pkt_dts = 90000, pkt_duration = 3600, pkt_stream_index = i,
             pkt_skip_samples = None\<rparr>,
           \<lparr>pkt_pts = 180000, pkt_dts = 180000, pkt_duration = 3600, pkt_stream_index = i,
             pkt_skip_samples = None\<rparr>])"
  by (simp add: muxer_example_defs muxer_eval_defs item_pkt_def)

text \<open>The example with the stream store \<open>ss_90k\<close> and a header write that leaves it alone.\<close>

theorem retriever_rescales_at_dequeue_witness:
  "m_written (snd (Start_body hdr_ok wr_ok
          (HandlePkt (NewPktHandler 0) (payload_ms 2000)
             (HandlePkt (NewPktHandler 0) (payload_ms 1000) (NewMuxer None ss_90k)))))
        = [\<lparr>pkt_pts = 90000, pkt_dts = 90000, pkt_duration = 3600, pkt_stream_index = 3,
             pkt_skip_samples = None\<rparr>,
           \<lparr>pkt_pts = 180000, pkt_dts = 180000, pkt_duration = 3600, pkt_stream_index = 3,
             pkt_skip_samples = None\<rparr>]"
proof -
  have "0 \<le> fst hdr_ok \<and> snd hdr_ok ss_90k (mh_o (NewPktHandler 0)) = \<lparr>st_Index = 3, st_TimeBase = tb_90k\<rparr>"
    by (simp add: hdr_ok_def ss_90k_def)
  with retriever_rescales_at_dequeue [of "NewPktHandler 0" _ _ _ hdr_ok ss_90k 3]
  show ?thesis by blast
qed

section \<open>The demuxer at end of input\<close>

lemma AVERROR_EOF_neg: "AVERROR_EOF < 0"
  by (simp add: AVERROR_EOF_def)

text \<open>
  C5: when the native read returns a negative code: at end of input with loop disabled,
  \<open>readFrame\<close> reports stop and emits nothing; at end of input with loop enabled and a
  first-packet record, it seeks to the record's stream index and \<open>dts\<close> with the
  backward flag and reports stop exactly when the seek fails (emitting the seek error
  then); for any other negative code it emits the error and reports stop. Nothing is
  dispatched in any of these cases.
\<close>

theorem readFrame_end_of_input:
  assumes "re_read env < 0"
  shows "(re_read env = AVERROR_EOF \<and> \<not> dm_loop d \<longrightarrow>
            fst (readFrame env d)
            \<and> dm_events (snd (readFrame env d)) = dm_events d
            \<and> dm_seeks (snd (readFrame env d)) = dm_seeks d)
     \<and> (re_read env = AVERROR_EOF \<and> dm_loop d \<and> dm_loopFirstPkt d = Some first \<longrightarrow>
            dm_seeks (snd (readFrame env d)) =
              dm_seeks d @ [(st_Index (dm_streams d (dp_s first)), dp_dts first, AVSEEK_FLAG_BACKWARD)]
            \<and> (fst (readFrame env d) \<longleftrightarrow> re_seek env < 0)
            \<and> dm_events (snd (readFrame env d)) =
                (if re_seek env < 0
                 then dm_events d @ [AvError (re_seek env)
                        ''ctxFormat.AvSeekFrame on %s with stream idx %v and ts %v failed'']
                 else dm_events d))
     \<and> (re_read env \<noteq> AVERROR_EOF \<longrightarrow>
            fst (readFrame env d)
            \<and> dm_events (snd (readFrame env d)) =
                dm_events d @ [AvError (re_read env) ''ctxFormat.AvReadFrame on %s failed'']
            \<and> dm_seeks (snd (readFrame env d)) = dm_seeks d)
     \<and> dm_dispatched (snd (readFrame env d)) = dm_dispatched d"
  using assms
  by (auto simp: readFrame_def Let_def split: prod.splits option.splits)

lemma readFrame_eof_no_first:
  assumes "re_read env = AVERROR_EOF" "dm_loop d" "dm_loopFirstPkt d = None"
  shows "readFrame env d =
     (False, d\<lparr>dm_reads := dm_reads d + 1,
               dm_p := put (fst (get (dm_p d))) (snd (get (dm_p d)))\<rparr>)"
  using assms AVERROR_EOF_neg
  by (auto simp: readFrame_def Let_def split: prod.splits)

lemma Start_loop_spins:
  assumes "\<forall>(env, cancelled) \<in> set envs. re_read env = AVERROR_EOF \<and> \<not> cancelled"
    and "dm_loop d" "dm_loopFirstPkt d = None"
  shows "fst (Start_loop envs d) = False
     \<and> dm_loop (snd (Start_loop envs d))
     \<and> dm_loopFirstPkt (snd (Start_loop envs d)) = None
     \<and> dm_reads (snd (Start_loop envs d)) = dm_reads d + length envs
     \<and> dm_seeks (snd (Start_loop envs d)) = dm_seeks d
     \<and> dm_events (snd (Start_loop envs d)) = dm_events d
     \<and> dm_dispatched (snd (Start_loop envs d)) = dm_dispatched d"
  using assms
proof (induction envs arbitrary: d)
  case Nil
  then show ?case by simp
next
  case (Cons a envs)
  obtain env c where a: "a = (env, c)" by (cases a)
  with Cons.prems have e: "re_read env = AVERROR_EOF" "\<not> c" by auto
  let ?d = "d\<lparr>dm_reads := dm_reads d + 1, dm_p := put (fst (get (dm_p d))) (snd (get (dm_p d)))\<rparr>"
  have r: "readFrame env d = (False, ?d)"
    using e(1) Cons.prems(2,3) by (rule readFrame_eof_no_first)
  have "\<forall>(env, cancelled) \<in> set envs. re_read env = AVERROR_EOF \<and> \<not> cancelled"
    using Cons.prems(1) by simp
  from Cons.IH[OF this, of ?d] Cons.prems(2,3)
  show ?case by (simp add: a r e)
qed

text \<open>
  C10: with loop enabled and no first-packet record, a read that returns end of input
  makes \<open>readFrame\<close> return \<open>stop = false\<close> having only counted the read and cycled
  the packet through the pool: no seek, no error, no record. So as long as the reads
  return end of input and the context is not cancelled the loop of \<open>Start\<close> has not
  returned, one read per iteration, and it returns in the iteration in which the
  context is found cancelled.
\<close>

theorem eof_before_first_packet_spins:
  assumes "\<forall>(env, cancelled) \<in> set envs. re_read env = AVERROR_EOF \<and> \<not> cancelled"
    and "re_read env = AVERROR_EOF"
    and "dm_loop d" "dm_loopFirstPkt d = None"
  shows "readFrame env d =
       (False, d\<lparr>dm_reads := dm_reads d + 1,
                 dm_p := put (fst (get (dm_p d))) (snd (get (dm_p d)))\<rparr>)
     \<and> fst (Start_loop envs d) = False
     \<and> dm_reads (snd (Start_loop envs d)) = dm_reads d + length envs
     \<and> dm_seeks (snd (Start_loop envs d)) = dm_seeks d
     \<and> dm_events (snd (Start_loop envs d)) = dm_events d
     \<and> dm_loopFirstPkt (snd (Start_loop envs d)) = None
     \<and> fst (Start_loop (envs @ [(env, True)]) d) = True
     \<and> dm_reads (snd (Start_loop (envs @ [(env, True)]) d)) = dm_reads d + length envs + 1
     \<and> dm_seeks (snd (Start_loop (envs @ [(env, True)]) d)) = dm_seeks d
     \<and> dm_events (snd (Start_loop (envs @ [(env, True)]) d)) = dm_events d"
proof -
  note spin = Start_loop_spins[OF assms(1,3,4)]
  have app: "Start_loop (xs @ ys) d0 =
      (if fst (Start_loop xs d0) then Start_loop xs d0 else Start_loop ys (snd (Start_loop xs d0)))"
    for xs ys d0
    by (induction xs arbitrary: d0) (auto simp: Let_def split: prod.splits)
  let ?d = "snd (Start_loop envs d)"
  have last: "readFrame env ?d =
     (False, ?d\<lparr>dm_reads := dm_reads ?d + 1,
               dm_p := put (fst (get (dm_p ?d))) (snd (get (dm_p ?d)))\<rparr>)"
    using assms(2) spin by (intro readFrame_eof_no_first) simp_all
  have "Start_loop (envs @ [(env, True)]) d = Start_loop [(env, True)] ?d"
    using spin by (simp add: app)
  with last spin readFrame_eof_no_first[OF assms(2,3,4)] show ?thesis by simp
qed

section \<open>Example runs of the demuxer\<close>

lemmas demuxer_example_defs = tb_48k_def ctx_audio_48k_def ctx_video_48k_def ss_audio_def
  native_48k_def pkt_1024_def pkt_1024_skip_def env_eof_def env_eof_seek_fails_def env_eio_def
  env_skip_def demuxer_looping_def NewDemuxer_def

text \<open>
  End of input without loop stops silently; with loop and a record it seeks to stream 0,
  \<open>dts\<close> 7, backwards, and goes on, or stops if the seek fails; an I/O error is emitted
  and stops.
\<close>

theorem readFrame_end_of_input_witness:
  "fst (readFrame env_eof (NewDemuxer False False ss_audio native_48k))
   \<and> dm_events (snd (readFrame env_eof (NewDemuxer False False ss_audio native_48k))) = []
   \<and> \<not> fst (readFrame env_eof demuxer_looping)
   \<and> dm_seeks (snd (readFrame env_eof demuxer_looping)) = [(0, 7, AVSEEK_FLAG_BACKWARD)]
   \<and> fst (readFrame env_eof_seek_fails demuxer_looping)
   \<and> fst (readFrame env_eio demuxer_looping)
   \<and> dm_events (snd (readFrame env_eio demuxer_looping))
       = [AvError (- 5) ''ctxFormat.AvReadFrame on %s failed'']"
proof -
  have neg: "re_read env_eof < 0" "re_read env_eof_seek_fails < 0" "re_read env_eio < 0"
    by (simp_all add: env_eof_def env_eof_seek_fails_def env_eio_def AVERROR_EOF_def)
  have eof: "re_read env_eof = AVERROR_EOF" "re_read env_eof_seek_fails = AVERROR_EOF"
    "re_read env_eio \<noteq> AVERROR_EOF"
    by (simp_all add: env_eof_def env_eof_seek_fails_def env_eio_def AVERROR_EOF_def)
  have lp: "\<not> dm_loop (NewDemuxer False False ss_audio native_48k)" "dm_loop demuxer_looping"
    "dm_loopFirstPkt demuxer_looping = Some \<lparr>dp_dts = 7, dp_duration = 1024, dp_s = 0\<rparr>"
    by (simp_all add: demuxer_looping_def NewDemuxer_def)
  have sk: "re_seek env_eof = 0" "re_seek env_eof_seek_fails = - 1"
    by (simp_all add: env_eof_def env_eof_seek_fails_def)
  have vals: "dm_events (NewDemuxer False False ss_audio native_48k) = []"
    "dm_seeks demuxer_looping = []" "dm_events demuxer_looping = []"
    "st_Index (dm_streams demuxer_looping 0) = 0"
    by (simp_all add: demuxer_looping_def NewDemuxer_def native_48k_def)
  from readFrame_end_of_input [OF neg(1), of "NewDemuxer False False ss_audio native_48k"]
    readFrame_end_of_input [OF neg(1), of demuxer_looping "\<lparr>dp_dts = 7, dp_duration = 1024, dp_s = 0\<rparr>"]
    readFrame_end_of_input [OF neg(2), of demuxer_looping "\<lparr>dp_dts = 7, dp_duration = 1024, dp_s = 0\<rparr>"]
    readFrame_end_of_input [OF neg(3), of demuxer_looping]
  show ?thesis by (simp add: eof lp sk vals) (simp add: env_eio_def env_eof_def)
qed

text \<open>
  A new looping demuxer whose reads all return end of input: after three iterations the
  loop is still running with three reads made, and it returns in the fourth, in which
  the context is cancelled.
\<close>

theorem eof_before_first_packet_spins_witness:
  "fst (Start_loop [(env_eof, False), (env_eof, False), (env_eof, False)]
         (NewDemuxer False True ss_audio native_48k)) = False
   \<and> dm_reads (snd (Start_loop [(env_eof, False), (env_eof, False), (env_eof, False)]
         (NewDemuxer False True ss_audio native_48k))) = 3
   \<and> fst (Start_loop ([(env_eof, False), (env_eof, False), (env_eof, False)] @ [(env_eof, True)])
         (NewDemuxer False True ss_audio native_48k)) = True
   \<and> dm_reads (snd (Start_loop ([(env_eof, False), (env_eof, False), (env_eof, False)] @ [(env_eof, True)])
         (NewDemuxer False True ss_audio native_48k))) = 4"
proof -
  have a: "\<forall>(env, cancelled) \<in> set [(env_eof, False), (env_eof, False), (env_eof, False)].
             re_read env = AVERROR_EOF \<and> \<not> cancelled"
    by (simp add: env_eof_def)
  have b: "re_read env_eof = AVERROR_EOF" by (simp add: env_eof_def)
  have c: "dm_loop (NewDemuxer False True ss_audio native_48k)"
    "dm_loopFirstPkt (NewDemuxer False True ss_audio native_48k) = None"
    "dm_reads (NewDemuxer False True ss_audio native_48k) = 0"
    by (simp_all add: NewDemuxer_def)
  from eof_before_first_packet_spins [OF a b c(1,2)] c(3)
  show ?thesis by (simp del: Start_loop.simps)
qed

section \<open>float64 rounding\<close>

lemma round_even_of_int [simp]: "round_even (of_int k) = k"
  by (simp add: round_even_def)

lemma round_even_close: "\<bar>of_int (round_even y) - y\<bar> \<le> 1 / 2"
  unfolding round_even_def Let_def by (auto simp: abs_if) linarith+

lemma float64_ulp_pos: "0 < float64_ulp x"
  by (simp add: float64_ulp_def)

lemma float64_ulp_le:
  assumes "0 < x"
  shows "float64_ulp x \<le> x * 2 powr (- 52)"
proof -
  have "2 powr (of_int \<lfloor>log 2 x\<rfloor>) \<le> 2 powr (log 2 x)"
    by (intro powr_mono) simp_all
  also have "\<dots> = x" using assms by simp
  finally have "2 powr (of_int \<lfloor>log 2 x\<rfloor>) \<le> x" .
  moreover have "float64_ulp x = 2 powr (of_int \<lfloor>log 2 x\<rfloor>) * 2 powr (- 52)"
    using assms by (simp add: float64_ulp_def powr_add [symmetric])
  ultimately show ?thesis by simp
qed

lemma float64_round_error:
  assumes "0 < x"
  shows "\<bar>float64_round x - x\<bar> \<le> x * 2 powr (- 53)"
proof -
  let ?u = "float64_ulp x"
  have u: "0 < ?u" by (rule float64_ulp_pos)
  have "float64_round x - x = (of_int (round_even (x / ?u)) - x / ?u) * ?u"
    using assms u by (simp add: float64_round_def field_simps)
  then have "\<bar>float64_round x - x\<bar> = \<bar>of_int (round_even (x / ?u)) - x / ?u\<bar> * ?u"
    using u by (simp add: abs_mult)
  also have "\<dots> \<le> (1 / 2) * ?u"
    using u round_even_close[of "x / ?u"] by (intro mult_right_mono) simp_all
  also have "\<dots> \<le> (1 / 2) * (x * 2 powr (- 52))"
    using float64_ulp_le[OF assms] by simp
  also have "\<dots> = x * 2 powr (- 53)"
  proof -
    have "(2::real) powr (- 52) = 2 * 2 powr (- 53)"
      by (simp add: powr_minus)
    then show ?thesis by simp
  qed
  finally show ?thesis .
qed


lemma float64_round_of_int:
  assumes "0 < n" "n < 2 ^ 53"
  shows "float64_round (of_int n) = of_int n"
proof -
  let ?x = "of_int n :: real"
  let ?e = "\<lfloor>log 2 \<bar>?x\<bar>\<rfloor>"
  have x: "0 < ?x" "\<bar>?x\<bar> = ?x" using assms(1) by simp_all
  have "?x < 2 powr 53" using assms(2)
    by (metis of_int_less_iff of_int_numeral of_int_power powr_numeral zero_le_numeral numeral_One
        of_int_1 less_eq_real_def zero_less_numeral)
  then have "log 2 ?x < 53" using x(1) by (simp add: log_less_iff)
  then have e: "?e \<le> 52" using x(2) by (simp add: floor_le_iff)
  define k where "k = nat (52 - ?e)"
  have "of_int (?e - 52) = - real k" using e by (simp add: k_def)
  then have u: "float64_ulp ?x = 1 / 2 ^ k"
    by (simp add: float64_ulp_def powr_minus powr_realpow divide_inverse)
  have "?x / float64_ulp ?x = of_int (n * 2 ^ k)" by (simp add: u)
  then have "round_even (?x / float64_ulp ?x) = n * 2 ^ k" by (simp only: round_even_of_int)
  then show ?thesis using x(1) by (simp add: float64_round_def u)
qed


lemma samples_ns_zero: "samples_ns 0 rate = 0"
  by (simp add: samples_ns_def float64_of_int_def float64_div_def float64_mul_def
      float64_round_def int64_of_float64_def)

lemma float64_round_error':
  assumes "0 < x"
  shows "x - x / 2 ^ 53 \<le> float64_round x" "float64_round x \<le> x + x / 2 ^ 53"
proof -
  have "(2::real) powr (- 53) = 1 / 2 ^ 53" by (simp add: powr_neg_numeral)
  with float64_round_error[OF assms] have "\<bar>float64_round x - x\<bar> \<le> x / 2 ^ 53" by simp
  then show "x - x / 2 ^ 53 \<le> float64_round x" "float64_round x \<le> x + x / 2 ^ 53"
    by linarith+
qed

lemma nat_less_2_53: "n < 2 ^ 32 \<Longrightarrow> int n < 2 ^ 53"
  by simp


lemma samples_ns_bounds:
  assumes "0 < n" "n < 2 ^ 32" "0 < rate" "rate < 2 ^ 53"
  shows "real n / of_int rate * 1000000000 * (1 - 3 / 2 ^ 53) - 1 < of_int (samples_ns n rate)"
    and "of_int (samples_ns n rate) \<le> real n / of_int rate * 1000000000 * (1 + 3 / 2 ^ 53)"
proof -
  define A where "A = real n / of_int rate"
  have a: "float64_of_int (int n) = real n"
    using float64_round_of_int[of "int n"] assms(1) nat_less_2_53[OF assms(2)]
    by (simp add: float64_of_int_def)
  have b: "float64_of_int rate = of_int rate"
    using float64_round_of_int[OF assms(3,4)] by (simp add: float64_of_int_def)
  define q where "q = float64_round A"
  define y where "y = float64_round (q * 1000000000)"
  have A0: "0 < A" using assms(1,3) by (simp add: A_def)
  note qe = float64_round_error'[OF A0, folded q_def]
  have qpos: "0 < q" using qe(1) A0 by (simp add: field_simps)
  then have "0 < q * 1000000000" by simp
  note ye = float64_round_error'[OF this, folded y_def]
  have ylo: "A * 1000000000 * (1 - 3 / 2 ^ 53) \<le> y" using qe ye A0 by simp
  have yhi: "y \<le> A * 1000000000 * (1 + 3 / 2 ^ 53)" using qe ye A0 by simp
  have ypos: "0 \<le> y" using ylo A0 by simp
  have "samples_ns n rate = int64_of_float64 y"
    by (simp only: samples_ns_def a b y_def q_def A_def float64_div_def float64_mul_def)
  then have s: "samples_ns n rate = \<lfloor>y\<rfloor>"
    using ypos by (simp only: int64_of_float64_def if_True)
  have fl: "y - 1 < of_int \<lfloor>y\<rfloor>" "of_int \<lfloor>y\<rfloor> \<le> y" by linarith+
  have r1: "A * 1000000000 * (1 - 3 / 2 ^ 53) - 1 < of_int \<lfloor>y\<rfloor>"
    using ylo fl(1) by (rule_tac le_less_trans[of _ "y - 1"]) simp_all
  have r2: "of_int \<lfloor>y\<rfloor> \<le> A * 1000000000 * (1 + 3 / 2 ^ 53)"
    using fl(2) yhi by (rule order_trans)
  show "real n / of_int rate * 1000000000 * (1 - 3 / 2 ^ 53) - 1 < of_int (samples_ns n rate)"
    using r1 by (simp only: s A_def)
  show "of_int (samples_ns n rate) \<le> real n / of_int rate * 1000000000 * (1 + 3 / 2 ^ 53)"
    using r2 by (simp only: s A_def)
qed

section \<open>The duration used for rate emulation\<close>

lemma int64_id: "INT64_MIN \<le> x \<Longrightarrow> x \<le> INT64_MAX \<Longrightarrow> int64 x = x"
  by (simp add: int64_def INT64_MIN_def INT64_MAX_def)

lemma samples_ns_nonneg:
  assumes "n < 2 ^ 32" "0 < rate" "rate < 2 ^ 53"
  shows "0 \<le> samples_ns n rate"
proof (cases "n = 0")
  case True
  then show ?thesis by (simp add: samples_ns_zero)
next
  case False
  then have n: "0 < n" by simp
  have "0 < real n / of_int rate * 1000000000 * (1 - 3 / 2 ^ 53)"
    using n assms(2) by simp
  with samples_ns_bounds(1)[OF n assms] have "(- 1 :: real) < of_int (samples_ns n rate)"
    by linarith
  then show ?thesis by linarith
qed

lemma samples_ns_times_rate:
  assumes "0 < n" "n < 2 ^ 32" "0 < rate" "rate \<le> 100000000"
  shows "int n * 1000000000 - 500000000 \<le> samples_ns n rate * rate"
    and "samples_ns n rate * rate < int n * 1000000000 + 500000000"
proof -
  have r53: "rate < 2 ^ 53" using assms(4) by simp
  define v where "v = samples_ns n rate"
  define A where "A = real n / of_int rate"
  have Ar: "A * of_int rate = real n" using assms(3) by (simp add: A_def)
  have n32: "real n < 4294967296" using assms(2) by simp
  have rr: "0 < real_of_int rate" "real_of_int rate \<le> 100000000" using assms(3,4) by simp_all
  note b = samples_ns_bounds[OF assms(1,2,3) r53, folded v_def A_def]
  have "(A * 1000000000 * (1 - 3 / 2 ^ 53) - 1) * of_int rate < of_int v * of_int rate"
    using b(1) rr(1) by (rule mult_strict_right_mono)
  then have lo: "real n * 1000000000 * (1 - 3 / 2 ^ 53) - of_int rate < of_int v * of_int rate"
    using Ar by (simp add: algebra_simps)
  have "of_int v * of_int rate \<le> A * 1000000000 * (1 + 3 / 2 ^ 53) * of_int rate"
    using b(2) rr(1) by (intro mult_right_mono) simp_all
  then have hi: "of_int v * of_int rate \<le> real n * 1000000000 * (1 + 3 / 2 ^ 53)"
    using Ar by (simp add: algebra_simps)
  have "real n * 1000000000 - 500000000 < of_int v * of_int rate"
    using lo n32 rr by simp
  then have "real_of_int (int n * 1000000000 - 500000000) < real_of_int (v * rate)" by simp
  then show "int n * 1000000000 - 500000000 \<le> samples_ns n rate * rate"
    unfolding v_def[symmetric] by linarith
  have "of_int v * of_int rate < real n * 1000000000 + 500000000"
    using hi n32 by simp
  then have "real_of_int (v * rate) < real_of_int (int n * 1000000000 + 500000000)" by simp
  then show "samples_ns n rate * rate < int n * 1000000000 + 500000000"
    unfolding v_def[symmetric] by linarith
qed

lemma rescale_samples_ns:
  assumes "n < 2 ^ 32" "0 < rate" "rate \<le> 100000000"
  shows "AvRescaleQ (samples_ns n rate) nanosecondRational \<lparr>num = 1, den = rate\<rparr> = int n"
proof (cases "n = 0")
  case True
  then show ?thesis
    using assms(2)
    by (simp add: samples_ns_zero AvRescaleQ_def av_rescale_rnd_near_inf_def nanosecondRational_def
        INT64_MAX_def)
next
  case False
  then have n: "0 < n" by simp
  have r53: "rate < 2 ^ 53" using assms(3) by simp
  define v where "v = samples_ns n rate"
  have v0: "0 \<le> v" unfolding v_def using assms(1,2) r53 by (rule samples_ns_nonneg)
  note b = samples_ns_times_rate[OF n assms, folded v_def]
  have "(v * rate + 500000000) div 1000000000 = int n"
  proof (rule int_div_pos_eq[where r = "v * rate + 500000000 - 1000000000 * int n"])
    show "v * rate + 500000000 = 1000000000 * int n + (v * rate + 500000000 - 1000000000 * int n)"
      by simp
    show "0 \<le> v * rate + 500000000 - 1000000000 * int n" using b(1) by simp
    show "v * rate + 500000000 - 1000000000 * int n < 1000000000" using b(2) by simp
  qed
  moreover have "int n \<le> INT64_MAX" using assms(1) by (simp add: INT64_MAX_def)
  ultimately show ?thesis
    using v0 assms(2)
    by (simp add: AvRescaleQ_def av_rescale_rnd_near_inf_def nanosecondRational_def
        v_def[symmetric] INT64_MAX_def max_def)
qed


lemma emulateRatePktDuration_sample_time_base:
  assumes "CodecType ctx = AVMEDIA_TYPE_AUDIO" "pkt_skip_samples pkt = Some (skipStart, skipEnd)"
    and "skipStart + skipEnd < 2 ^ 32" "0 < SampleRate ctx" "SampleRate ctx \<le> 100000000"
    and "ctx_TimeBase ctx = \<lparr>num = 1, den = SampleRate ctx\<rparr>"
    and "INT64_MIN + 2 ^ 32 \<le> pkt_duration pkt" "pkt_duration pkt \<le> INT64_MAX"
  shows "emulateRatePktDuration pkt ctx = pkt_duration pkt - int (skipStart + skipEnd)"
proof -
  have "AvRescaleQ (samples_ns (skipStart + skipEnd) (SampleRate ctx)) nanosecondRational
          (ctx_TimeBase ctx) = int (skipStart + skipEnd)"
    unfolding assms(6) using assms(3,4,5) by (rule rescale_samples_ns)
  moreover have "int64 (pkt_duration pkt - int (skipStart + skipEnd))
      = pkt_duration pkt - int (skipStart + skipEnd)"
  proof (rule int64_id)
    have "int (skipStart + skipEnd) < 2 ^ 32" using assms(3) by simp
    then show "INT64_MIN \<le> pkt_duration pkt - int (skipStart + skipEnd)"
      using assms(7) by simp
    show "pkt_duration pkt - int (skipStart + skipEnd) \<le> INT64_MAX"
      using assms(8) by simp
  qed
  ultimately show ?thesis
    using assms(1,2) by (simp add: emulateRatePktDuration_def)
qed

lemma emulateRatePktDuration_example:
  "emulateRatePktDuration pkt_1024_skip ctx_audio_48k = 512"
proof -
  have "emulateRatePktDuration pkt_1024_skip ctx_audio_48k
      = pkt_duration pkt_1024_skip - int (512 + 0)"
    by (rule emulateRatePktDuration_sample_time_base)
       (simp_all add: pkt_1024_skip_def pkt_1024_def ctx_audio_48k_def tb_48k_def INT64_MIN_def
          INT64_MAX_def)
  then show ?thesis by (simp add: pkt_1024_skip_def pkt_1024_def)
qed

lemma samples_ns_close:
  assumes "0 < n" "n < 2 ^ 32" "0 < rate" "rate < 2 ^ 53"
  shows "\<bar>of_int (samples_ns n rate) - real n / of_int rate * 1000000000\<bar>
           \<le> 1 + real n / of_int rate * 1000000000 * (3 / 2 ^ 53)"
  using samples_ns_bounds[OF assms] by (simp add: abs_le_iff algebra_simps)

lemma sleep_example:
  "dm_sleeps (snd (readFrame env_skip (snd (readFrame env_skip
      (NewDemuxer True False ss_audio native_48k))))) = [10666667]"
proof -
  have [simp]: "pkt_stream_index pkt_1024_skip = 0"
    by (simp add: pkt_1024_skip_def pkt_1024_def)
  show ?thesis
    by (simp add: readFrame_def emulate_rate_def NewDemuxer_def env_skip_def env_eof_def
        ss_audio_def native_48k_def get_def put_def newFramePool_def Let_def
        emulateRatePktDuration_example AvRescaleQ_def av_rescale_rnd_near_inf_def
        nanosecondRational_def tb_48k_def INT64_MAX_def)
qed


text \<open>
  C7: the duration used for pacing is the packet duration for a packet that is not
  audio or carries no skip-samples side data. For an audio packet with side data it is
  the packet duration minus the duration of the \<open>skipStart + skipEnd\<close> samples at the
  stream's sample rate, rescaled from nanoseconds into the stream time base; that
  duration in nanoseconds is exact up to the truncation to a whole nanosecond and the
  two float64 roundings, and in a time base of one sample per tick the amount
  subtracted is exactly \<open>skipStart + skipEnd\<close>. For a packet of 1024 samples at 48 kHz
  with 512 samples to skip at the start, the duration used is 512 ticks, that is
  10666667 ns, and a second such packet read at the same clock sleeps that long.
\<close>

theorem emulate_rate_pkt_duration:
  "(CodecType ctx \<noteq> AVMEDIA_TYPE_AUDIO \<or> pkt_skip_samples pkt = None \<longrightarrow>
      emulateRatePktDuration pkt ctx = pkt_duration pkt)
   \<and> (CodecType ctx = AVMEDIA_TYPE_AUDIO \<and> pkt_skip_samples pkt = Some (skipStart, skipEnd)
        \<and> skipStart + skipEnd < 2 ^ 32 \<and> 0 < SampleRate ctx \<longrightarrow>
        emulateRatePktDuration pkt ctx =
          int64 (pkt_duration pkt
            - AvRescaleQ (samples_ns (skipStart + skipEnd) (SampleRate ctx)) nanosecondRational
                (ctx_TimeBase ctx)))
   \<and> (0 < skipStart + skipEnd \<and> skipStart + skipEnd < 2 ^ 32
        \<and> 0 < SampleRate ctx \<and> SampleRate ctx < 2 ^ 53 \<longrightarrow>
        \<bar>of_int (samples_ns (skipStart + skipEnd) (SampleRate ctx))
           - real (skipStart + skipEnd) / of_int (SampleRate ctx) * 1000000000\<bar>
          \<le> 1 + real (skipStart + skipEnd) / of_int (SampleRate ctx) * 1000000000 * (3 / 2 ^ 53))
   \<and> (CodecType ctx = AVMEDIA_TYPE_AUDIO \<and> pkt_skip_samples pkt = Some (skipStart, skipEnd)
        \<and> skipStart + skipEnd < 2 ^ 32 \<and> 0 < SampleRate ctx \<and> SampleRate ctx \<le> 100000000
        \<and> ctx_TimeBase ctx = \<lparr>num = 1, den = SampleRate ctx\<rparr>
        \<and> INT64_MIN + 2 ^ 32 \<le> pkt_duration pkt \<and> pkt_duration pkt \<le> INT64_MAX \<longrightarrow>
        emulateRatePktDuration pkt ctx = pkt_duration pkt - int (skipStart + skipEnd))
   \<and> (CodecType ctx = AVMEDIA_TYPE_AUDIO \<and> SampleRate ctx = 48000
        \<and> ctx_TimeBase ctx = \<lparr>num = 1, den = 48000\<rparr>
        \<and> pkt_duration pkt = 1024 \<and> pkt_skip_samples pkt = Some (512, 0) \<longrightarrow>
        emulateRatePktDuration pkt ctx = 512
        \<and> AvRescaleQ (emulateRatePktDuration pkt ctx) \<lparr>num = 1, den = 48000\<rparr> nanosecondRational
            = 10666667)
   \<and> dm_sleeps (snd (readFrame env_skip (snd (readFrame env_skip
        (NewDemuxer True False ss_audio native_48k))))) = [10666667]"
proof -
  have 1: "CodecType ctx \<noteq> AVMEDIA_TYPE_AUDIO \<or> pkt_skip_samples pkt = None \<longrightarrow>
      emulateRatePktDuration pkt ctx = pkt_duration pkt"
    by (auto simp: emulateRatePktDuration_def split: AVMediaType.splits)
  have 2: "CodecType ctx = AVMEDIA_TYPE_AUDIO \<and> pkt_skip_samples pkt = Some (skipStart, skipEnd) \<longrightarrow>
        emulateRatePktDuration pkt ctx =
          int64 (pkt_duration pkt
            - AvRescaleQ (samples_ns (skipStart + skipEnd) (SampleRate ctx)) nanosecondRational
                (ctx_TimeBase ctx))"
    by (simp add: emulateRatePktDuration_def)
  have 3: "0 < skipStart + skipEnd \<and> skipStart + skipEnd < 2 ^ 32
        \<and> 0 < SampleRate ctx \<and> SampleRate ctx < 2 ^ 53 \<longrightarrow>
        \<bar>of_int (samples_ns (skipStart + skipEnd) (SampleRate ctx))
           - real (skipStart + skipEnd) / of_int (SampleRate ctx) * 1000000000\<bar>
          \<le> 1 + real (skipStart + skipEnd) / of_int (SampleRate ctx) * 1000000000 * (3 / 2 ^ 53)"
    using samples_ns_close[of "skipStart + skipEnd" "SampleRate ctx"] by blast
  have 4: "CodecType ctx = AVMEDIA_TYPE_AUDIO \<and> pkt_skip_samples pkt = Some (skipStart, skipEnd)
        \<and> skipStart + skipEnd < 2 ^ 32 \<and> 0 < SampleRate ctx \<and> SampleRate ctx \<le> 100000000
        \<and> ctx_TimeBase ctx = \<lparr>num = 1, den = SampleRate ctx\<rparr>
        \<and> INT64_MIN + 2 ^ 32 \<le> pkt_duration pkt \<and> pkt_duration pkt \<le> INT64_MAX \<longrightarrow>
        emulateRatePktDuration pkt ctx = pkt_duration pkt - int (skipStart + skipEnd)"
    using emulateRatePktDuration_sample_time_base[of ctx pkt skipStart skipEnd] by blast
  have 5: "CodecType ctx = AVMEDIA_TYPE_AUDIO \<and> SampleRate ctx = 48000
        \<and> ctx_TimeBase ctx = \<lparr>num = 1, den = 48000\<rparr>
        \<and> pkt_duration pkt = 1024 \<and> pkt_skip_samples pkt = Some (512, 0) \<longrightarrow>
        emulateRatePktDuration pkt ctx = 512
        \<and> AvRescaleQ (emulateRatePktDuration pkt ctx) \<lparr>num = 1, den = 48000\<rparr> nanosecondRational
            = 10666667"
  proof (intro impI, elim conjE)
    assume a: "CodecType ctx = AVMEDIA_TYPE_AUDIO" "SampleRate ctx = 48000"
      "ctx_TimeBase ctx = \<lparr>num = 1, den = 48000\<rparr>" "pkt_duration pkt = 1024"
      "pkt_skip_samples pkt = Some (512, 0)"
    have "emulateRatePktDuration pkt ctx = pkt_duration pkt - int (512 + 0)"
      by (rule emulateRatePktDuration_sample_time_base)
         (simp_all add: a INT64_MIN_def INT64_MAX_def)
    then have e: "emulateRatePktDuration pkt ctx = 512" by (simp add: a)
    then show "emulateRatePktDuration pkt ctx = 512
        \<and> AvRescaleQ (emulateRatePktDuration pkt ctx) \<lparr>num = 1, den = 48000\<rparr> nanosecondRational
            = 10666667"
      by (simp add: AvRescaleQ_def av_rescale_rnd_near_inf_def nanosecondRational_def INT64_MAX_def)
  qed
  from 1 2 3 4 5 sleep_example show ?thesis by blast
qed

text \<open>The example packets: audio with side data, audio without, and video.\<close>

theorem emulate_rate_pkt_duration_witness:
  "emulateRatePktDuration pkt_1024_skip ctx_audio_48k = 512
   \<and> AvRescaleQ (emulateRatePktDuration pkt_1024_skip ctx_audio_48k) \<lparr>num = 1, den = 48000\<rparr>
        nanosecondRational = 10666667
   \<and> emulateRatePktDuration pkt_1024 ctx_audio_48k = 1024
   \<and> emulateRatePktDuration pkt_1024_skip ctx_video_48k = 1024
   \<and> \<bar>real_of_int (samples_ns 512 48000) - 512 / 48000 * 1000000000\<bar>
        \<le> 1 + 512 / 48000 * 1000000000 * (3 / 2 ^ 53)"
proof -
  have a: "CodecType ctx_audio_48k = AVMEDIA_TYPE_AUDIO \<and> SampleRate ctx_audio_48k = 48000
        \<and> ctx_TimeBase ctx_audio_48k = \<lparr>num = 1, den = 48000\<rparr>
        \<and> pkt_duration pkt_1024_skip = 1024 \<and> pkt_skip_samples pkt_1024_skip = Some (512, 0)"
    by (simp add: ctx_audio_48k_def tb_48k_def pkt_1024_skip_def pkt_1024_def)
  have b: "pkt_skip_samples pkt_1024 = None" "pkt_duration pkt_1024 = 1024"
    "CodecType ctx_video_48k \<noteq> AVMEDIA_TYPE_AUDIO"
    by (simp_all add: pkt_1024_def ctx_video_48k_def)
  have c: "0 < (512::nat) + 0 \<and> (512::nat) + 0 < 2 ^ 32 \<and> 0 < SampleRate ctx_audio_48k
        \<and> SampleRate ctx_audio_48k < 2 ^ 53"
    by (simp add: ctx_audio_48k_def)
  from emulate_rate_pkt_duration [of ctx_audio_48k pkt_1024_skip 512 0] a
  have "emulateRatePktDuration pkt_1024_skip ctx_audio_48k = 512
   \<and> AvRescaleQ (emulateRatePktDuration pkt_1024_skip ctx_audio_48k) \<lparr>num = 1, den = 48000\<rparr>
        nanosecondRational = 10666667"
    by blast
  moreover from emulate_rate_pkt_duration [of ctx_audio_48k pkt_1024 0 0] b
  have "emulateRatePktDuration pkt_1024 ctx_audio_48k = 1024" by simp
  moreover from emulate_rate_pkt_duration [of ctx_video_48k pkt_1024_skip 0 0] b a
  have "emulateRatePktDuration pkt_1024_skip ctx_video_48k = 1024" by simp
  moreover from emulate_rate_pkt_duration [of ctx_audio_48k pkt_1024_skip 512 0] c
  have "\<bar>real_of_int (samples_ns (512 + 0) (SampleRate ctx_audio_48k))
           - real (512 + 0) / of_int (SampleRate ctx_audio_48k) * 1000000000\<bar>
          \<le> 1 + real (512 + 0) / of_int (SampleRate ctx_audio_48k) * 1000000000 * (3 / 2 ^ 53)"
    by blast
  then have "\<bar>real_of_int (samples_ns 512 48000) - 512 / 48000 * 1000000000\<bar>
        \<le> 1 + 512 / 48000 * 1000000000 * (3 / 2 ^ 53)"
    by (simp add: ctx_audio_48k_def)
  ultimately show ?thesis by blast
qed

end
